theory Spec2Isabelle
  imports Complex_Main
begin

section \<open>JavaScript numbers\<close>

text \<open>
  A JavaScript \<open>number\<close> is modelled as either \<open>NaN\<close> or a finite value, the finite
  doubles being idealised as real numbers: rounding, overflow to \<open>Infinity\<close> and the sign
  of zero are not represented (the spectral centroid, whose range depends on the
  overflow, is modelled a second time with the infinities, further down). \<open>NaN\<close> is
  kept because the code produces it (the quotient \<open>0 / 0\<close> for an empty buffer) and
  because every comparison with it is false, which decides what the classifier does on
  such a record.

  Arithmetic propagates \<open>NaN\<close>. A division with a zero divisor gives \<open>NaN\<close>: that is
  JavaScript's \<open>0 / 0\<close>, the only such quotient the modelled code can form (wherever a
  divisor can be zero, the dividend is zero as well: a sum or a count over an empty
  buffer, or the index \<open>0\<close> of a one-sample window; the divisions by a sum or a total
  stand behind a guard \<open>> 0\<close>). A non-zero dividend over zero would be an infinity,
  which the model does not have. In the same way \<open>Math.log\<close> is only applied to a
  power plus \<open>1e-10\<close>; on an argument that is not positive the model answers \<open>NaN\<close>.
\<close>

datatype number = NaN | Val real

fun nadd :: "number \<Rightarrow> number \<Rightarrow> number" where
  "nadd (Val x) (Val y) = Val (x + y)"
| "nadd _ _ = NaN"

fun nsub :: "number \<Rightarrow> number \<Rightarrow> number" where
  "nsub (Val x) (Val y) = Val (x - y)"
| "nsub _ _ = NaN"

fun nmul :: "number \<Rightarrow> number \<Rightarrow> number" where
  "nmul (Val x) (Val y) = Val (x * y)"
| "nmul _ _ = NaN"

fun ndiv :: "number \<Rightarrow> number \<Rightarrow> number" where
  "ndiv (Val x) (Val y) = (if y = 0 then NaN else Val (x / y))"
| "ndiv _ _ = NaN"

fun nsqrt :: "number \<Rightarrow> number" where
  "nsqrt (Val x) = (if x < 0 then NaN else Val (sqrt x))"
| "nsqrt NaN = NaN"

fun ncos :: "number \<Rightarrow> number" where
  "ncos (Val x) = Val (cos x)"
| "ncos NaN = NaN"

fun nsin :: "number \<Rightarrow> number" where
  "nsin (Val x) = Val (sin x)"
| "nsin NaN = NaN"

fun nlog :: "number \<Rightarrow> number" where
  "nlog (Val x) = (if x \<le> 0 then NaN else Val (ln x))"
| "nlog NaN = NaN"

text \<open>The comparisons \<open>x > c\<close>, \<open>x < c\<close> and \<open>x >= c\<close>: false on \<open>NaN\<close>.\<close>

fun ngt :: "number \<Rightarrow> real \<Rightarrow> bool" where
  "ngt (Val x) c = (x > c)"
| "ngt NaN c = False"

fun nlt :: "number \<Rightarrow> real \<Rightarrow> bool" where
  "nlt (Val x) c = (x < c)"
| "nlt NaN c = False"

fun nge :: "number \<Rightarrow> real \<Rightarrow> bool" where
  "nge (Val x) c = (x \<ge> c)"
| "nge NaN c = False"

text \<open>
  Reading a \<open>Float32Array\<close> at an index: past the end the read gives \<open>undefined\<close>,
  which every arithmetic operator and comparison of the code converts to \<open>NaN\<close>.
\<close>

definition readAt :: "number list \<Rightarrow> nat \<Rightarrow> number" where
  "readAt xs i = (if i < length xs then xs ! i else NaN)"

section \<open>The data model\<close>

text \<open>The interface \<open>CoughAnalysis\<close> of \<open>lib/audio-processor.ts\<close>.\<close>

record CoughAnalysis =
  duration :: number
  rms :: number
  zeroCrossingRate :: number
  spectralCentroid :: number
  mfccFeatures :: "number list"
  timestamp :: number

text \<open>The union type \<open>"low" | "medium" | "high"\<close>.\<close>

datatype confidenceBand = Low | Medium | High

text \<open>
  The interfaces \<open>ConditionProbability\<close> and \<open>CoughClassification\<close>. A probability is
  a sum of the literals of the rules, capped and rescaled under a guard, so it is never
  \<open>NaN\<close> and is kept as a real.
\<close>

record ConditionProbability =
  name :: string
  probability :: real
  confidence :: confidenceBand

record CoughClassification =
  conditions :: "ConditionProbability list"
  dominantCondition :: string
  overallConfidence :: confidenceBand
  analysisTimestamp :: number

text \<open>
  The exceptions of the code: the built-in \<open>RangeError\<close>, which \<open>new Float32Array(n)\<close>
  throws on a negative length, and \<open>new Error(message)\<close>.
\<close>

datatype js_error = RangeError | Error string

section \<open>The rule-based classifier\<close>

subsection \<open>\<open>detectWheezing\<close>\<close>

text \<open>
  The loop \<open>for (let i = 0; i < mfccFeatures.length; i += 13)\<close>, with the counter
  \<open>wheezingIndicators\<close> as accumulator.
\<close>

function wheezingLoop :: "number list \<Rightarrow> nat \<Rightarrow> nat \<Rightarrow> nat" where
  "wheezingLoop mfcc i wheezingIndicators =
     (if i < length mfcc
      then wheezingLoop mfcc (i + 13)
             (if ngt (readAt mfcc (i + 2)) 0.5 \<and> nlt (readAt mfcc (i + 3)) (-0.3)
              then wheezingIndicators + 1 else wheezingIndicators)
      else wheezingIndicators)"
  by pat_completeness auto
termination
  by (relation "measure (\<lambda>(mfcc, i, c). length mfcc - i)") auto

declare wheezingLoop.simps [simp del]

definition detectWheezing :: "number list \<Rightarrow> bool" where
  "detectWheezing mfcc = (real (wheezingLoop mfcc 0 0) > real (length mfcc) / 26)"

subsection \<open>The four raw scores\<close>

text \<open>
  Each score starts at \<open>0\<close> and is increased by the rules in the order of the source.
\<close>

definition covidScore :: "CoughAnalysis \<Rightarrow> real" where
  "covidScore analysis =
     (let s0 = 0;
          s1 = (if ngt (duration analysis) 0.5 \<and> nlt (duration analysis) 2.0
                then s0 + 0.3 else s0);
          s2 = (if nlt (rms analysis) 0.1 then s1 + 0.2 else s1);
          s3 = (if ngt (zeroCrossingRate analysis) 0.1 then s2 + 0.2 else s2);
          s4 = (if ngt (spectralCentroid analysis) 2000 then s3 + 0.3 else s3)
      in s4)"

definition asthmaScore :: "CoughAnalysis \<Rightarrow> real" where
  "asthmaScore analysis =
     (let s0 = 0;
          s1 = (if ngt (duration analysis) 1.0 then s0 + 0.3 else s0);
          s2 = (if nlt (spectralCentroid analysis) 1500 then s1 + 0.3 else s1);
          s3 = (if detectWheezing (mfccFeatures analysis) then s2 + 0.4 else s2)
      in s3)"

definition bronchitisScore :: "CoughAnalysis \<Rightarrow> real" where
  "bronchitisScore analysis =
     (let s0 = 0;
          s1 = (if ngt (rms analysis) 0.15 then s0 + 0.3 else s0);
          s2 = (if ngt (duration analysis) 0.8 then s1 + 0.2 else s1);
          s3 = (if nlt (spectralCentroid analysis) 2000 then s2 + 0.3 else s2)
      in s3)"

definition pneumoniaScore :: "CoughAnalysis \<Rightarrow> real" where
  "pneumoniaScore analysis =
     (let s0 = 0;
          s1 = (if ngt (rms analysis) 0.12 then s0 + 0.2 else s0);
          s2 = (if nlt (duration analysis) 1.5 then s1 + 0.2 else s1);
          s3 = (if nlt (zeroCrossingRate analysis) 0.08 then s2 + 0.3 else s2)
      in s3)"

subsection \<open>\<open>predict\<close>\<close>

text \<open>The array \<open>conditions\<close> after the four calls of \<open>push\<close>.\<close>

definition pushedConditions :: "CoughAnalysis \<Rightarrow> ConditionProbability list" where
  "pushedConditions analysis =
     [\<lparr>name = ''COVID-19'',
       probability = min (covidScore analysis) 0.95,
       confidence = (if covidScore analysis > 0.6 then High
                     else if covidScore analysis > 0.3 then Medium else Low)\<rparr>,
      \<lparr>name = ''Asthma'',
       probability = min (asthmaScore analysis) 0.95,
       confidence = (if asthmaScore analysis > 0.6 then High
                     else if asthmaScore analysis > 0.3 then Medium else Low)\<rparr>,
      \<lparr>name = ''Bronchitis'',
       probability = min (bronchitisScore analysis) 0.95,
       confidence = (if bronchitisScore analysis > 0.6 then High
                     else if bronchitisScore analysis > 0.3 then Medium else Low)\<rparr>,
      \<lparr>name = ''Pneumonia'',
       probability = min (pneumoniaScore analysis) 0.95,
       confidence = (if pneumoniaScore analysis > 0.6 then High
                     else if pneumoniaScore analysis > 0.3 then Medium else Low)\<rparr>]"

text \<open>
  \<open>conditions.sort((a, b) => b.probability - a.probability)\<close>. \<open>Array.prototype.sort\<close>
  is stable (ECMAScript 2019): an element stays before every later element that the
  comparator does not put strictly first. \<open>insertCondition c ds\<close> puts \<open>c\<close>, which
  preceded all of \<open>ds\<close> in the array, into the sorted \<open>ds\<close>: \<open>c\<close> stays in front of \<open>d\<close>
  unless the comparator's value \<open>d.probability - c.probability\<close> is positive.
\<close>

fun insertCondition ::
  "ConditionProbability \<Rightarrow> ConditionProbability list \<Rightarrow> ConditionProbability list" where
  "insertCondition c [] = [c]"
| "insertCondition c (d # ds) =
     (if probability d - probability c > 0 then d # insertCondition c ds else c # d # ds)"

definition sortConditions :: "ConditionProbability list \<Rightarrow> ConditionProbability list" where
  "sortConditions cs = foldr insertCondition cs []"

text \<open>
  \<open>Date.now()\<close> is the argument \<open>now\<close>. The optional chain \<open>conditions[0]?.name\<close> is
  \<open>undefined\<close> on an empty array, and \<open>||\<close> replaces a falsy left operand (\<open>undefined\<close>
  or the empty string) by its right operand; the three confidence strings are truthy.
\<close>

definition predict :: "CoughAnalysis \<Rightarrow> number \<Rightarrow> CoughClassification" where
  "predict analysis now =
     (let sorted = sortConditions (pushedConditions analysis);
          total = foldl (\<lambda>sum c. sum + probability c) 0 sorted;
          normalized =
            (if total > 0
             then map (\<lambda>c. c\<lparr>probability := (probability c / total) * 100\<rparr>) sorted
             else sorted)
      in \<lparr>conditions = normalized,
          dominantCondition =
            (case normalized of
               [] \<Rightarrow> ''Unknown''
             | c # _ \<Rightarrow> (if name c = [] then ''Unknown'' else name c)),
          overallConfidence =
            (case normalized of [] \<Rightarrow> Low | c # _ \<Rightarrow> confidence c),
          analysisTimestamp = now\<rparr>)"

subsection \<open>\<open>CoughClassifier.classifyCough\<close>\<close>

text \<open>
  The two private fields of \<open>CoughClassifier\<close>: whether \<open>model\<close> is set (it is either
  \<open>null\<close> or the rule-based model) and \<open>isLoaded\<close>.
\<close>

record CoughClassifier =
  modelSet :: bool
  isLoaded :: bool

definition classifyCough ::
  "CoughClassifier \<Rightarrow> CoughAnalysis \<Rightarrow> number \<Rightarrow> js_error + CoughClassification" where
  "classifyCough this analysis now =
     (if \<not> isLoaded this \<or> \<not> modelSet this then Inl (Error ''Model not loaded'')
      else Inr (predict analysis now))"

section \<open>The audio processor\<close>

text \<open>
  What the code reads of a Web Audio \<open>AudioBuffer\<close>: the samples of channel 0
  (\<open>getChannelData(0)\<close>, a \<open>Float32Array\<close>), \<open>sampleRate\<close> and \<open>duration\<close> (the
  last field is named \<open>bufferDuration\<close> here, \<open>duration\<close> being a field of
  \<open>CoughAnalysis\<close>).
\<close>

record AudioBuffer =
  channelData0 :: "number list"
  sampleRate :: number
  bufferDuration :: number

subsection \<open>\<open>preEmphasis\<close>, \<open>applyHammingWindow\<close>\<close>

definition preEmphasis :: "number list \<Rightarrow> number \<Rightarrow> number list" where
  "preEmphasis signal alpha =
     map (\<lambda>i. if i = 0 then readAt signal 0
              else nsub (readAt signal i) (nmul alpha (readAt signal (i - 1))))
       [0..<length signal]"

definition applyHammingWindow :: "number list \<Rightarrow> number list" where
  "applyHammingWindow frame =
     (let N = length frame
      in map (\<lambda>n. let window =
                       nsub (Val 0.54)
                         (nmul (Val 0.46)
                            (ncos (ndiv (Val (2 * pi * real n)) (Val (real N - 1)))))
                  in nmul (readAt frame n) window)
           [0..<N])"

subsection \<open>\<open>computeFFT\<close>\<close>

text \<open>
  The inner loop over \<open>n\<close> for one output index \<open>k\<close>, with the two running sums
  \<open>realSum\<close> and \<open>imagSum\<close>; the outer loop writes them to \<open>result[k * 2]\<close> and
  \<open>result[k * 2 + 1]\<close> for \<open>k\<close> from \<open>0\<close> to \<open>N - 1\<close>.
\<close>

definition fftSums :: "number list \<Rightarrow> nat \<Rightarrow> number \<times> number" where
  "fftSums signal k =
     (let N = length signal
      in fold (\<lambda>n (realSum, imagSum).
                 let angle = ndiv (Val (-2 * pi * real k * real n)) (Val (real N))
                 in (nadd realSum (nmul (readAt signal n) (ncos angle)),
                     nadd imagSum (nmul (readAt signal n) (nsin angle))))
           [0..<N] (Val 0, Val 0))"

definition computeFFT :: "number list \<Rightarrow> number list" where
  "computeFFT signal =
     (let N = length signal
      in concat
           (map (\<lambda>k. let (realSum, imagSum) = fftSums signal k in [realSum, imagSum])
              [0..<N]))"

subsection \<open>\<open>computeMFCC\<close>, \<open>extractMFCCFeatures\<close>\<close>

text \<open>
  The power spectrum has \<open>fft.length / 2\<close> entries. One cepstral coefficient is the
  inner loop over \<open>j\<close> with the running \<open>sum\<close>; the literal \<open>1e-10\<close> is \<open>1 / 10 ^ 10\<close>.
\<close>

definition powerSpectrumOf :: "number list \<Rightarrow> number list" where
  "powerSpectrumOf fft =
     map (\<lambda>i. let re = readAt fft (i * 2); im = readAt fft (i * 2 + 1)
              in nadd (nmul re re) (nmul im im))
       [0..<length fft div 2]"

definition mfccCoefficient :: "number list \<Rightarrow> nat \<Rightarrow> number" where
  "mfccCoefficient powerSpectrum i =
     fold (\<lambda>j sum.
             nadd sum
               (nmul (nlog (nadd (readAt powerSpectrum j) (Val (1 / 10 ^ 10))))
                  (ncos (ndiv (Val (pi * real i * (real j + 0.5)))
                           (Val (real (length powerSpectrum)))))))
       [0..<length powerSpectrum] (Val 0)"

definition computeMFCC :: "number list \<Rightarrow> number \<Rightarrow> number list" where
  "computeMFCC frame rate =
     (let fft = computeFFT frame;
          powerSpectrum = powerSpectrumOf fft
      in map (\<lambda>i. mfccCoefficient powerSpectrum i) [0..<13])"

text \<open>\<open>Math.floor((preEmphasized.length - windowSize) / hopSize) + 1\<close> for a length \<open>n\<close>.\<close>

definition numFrames :: "nat \<Rightarrow> int" where
  "numFrames n = \<lfloor>(real n - 2048) / 512\<rfloor> + 1"

text \<open>
  \<open>new Float32Array(numFrames * 13)\<close> throws a \<open>RangeError\<close> when the length is
  negative. Otherwise every element of the array is written, frame after frame;
  \<open>slice(start, start + windowSize)\<close> stops at the end of the array.
\<close>

definition extractMFCCFeatures :: "AudioBuffer \<Rightarrow> js_error + number list" where
  "extractMFCCFeatures audioBuffer =
     (let channelData = channelData0 audioBuffer;
          preEmphasized = preEmphasis channelData (Val 0.97);
          windowSize = 2048;
          hopSize = 512;
          frames = numFrames (length preEmphasized)
      in if frames * 13 < 0 then Inl RangeError
         else Inr (concat
                (map (\<lambda>frame.
                        let start = frame * hopSize;
                            frameData = take windowSize (drop start preEmphasized);
                            windowed = applyHammingWindow frameData;
                            mfcc = computeMFCC windowed (sampleRate audioBuffer)
                        in map (\<lambda>i. readAt mfcc i) [0..<13])
                   [0..<nat frames])))"

subsection \<open>The statistics\<close>

definition calculateRMS :: "number list \<Rightarrow> number" where
  "calculateRMS signal =
     (let sum = fold (\<lambda>i sum. nadd sum (nmul (readAt signal i) (readAt signal i)))
                  [0..<length signal] (Val 0)
      in nsqrt (ndiv sum (Val (real (length signal)))))"

definition calculateZeroCrossingRate :: "number list \<Rightarrow> number" where
  "calculateZeroCrossingRate signal =
     (let crossings =
            fold (\<lambda>i crossings.
                    if nge (readAt signal i) 0 \<noteq> nge (readAt signal (i - 1)) 0
                    then crossings + 1 else crossings)
              [1..<length signal] (0::nat)
      in ndiv (Val (real crossings)) (Val (real (length signal))))"

text \<open>
  The loop of \<open>calculateSpectralCentroid\<close> over the \<open>fft.length / 2\<close> bins, with the
  two running sums.
\<close>

definition centroidSums :: "number list \<Rightarrow> number \<Rightarrow> number \<times> number" where
  "centroidSums fft rate =
     (let M = length fft div 2
      in fold (\<lambda>i (weightedSum, magnitudeSum).
                 let re = readAt fft (i * 2);
                     im = readAt fft (i * 2 + 1);
                     magnitude = nsqrt (nadd (nmul re re) (nmul im im));
                     frequency = ndiv (nmul (Val (real i)) rate) (Val (2 * real M))
                 in (nadd weightedSum (nmul frequency magnitude),
                     nadd magnitudeSum magnitude))
           [0..<M] (Val 0, Val 0))"

definition calculateSpectralCentroid :: "number list \<Rightarrow> number \<Rightarrow> number" where
  "calculateSpectralCentroid signal rate =
     (let fft = computeFFT signal;
          (weightedSum, magnitudeSum) = centroidSums fft rate
      in if ngt magnitudeSum 0 then ndiv weightedSum magnitudeSum else Val 0)"

subsection \<open>\<open>analyzeCoughCharacteristics\<close>\<close>

text \<open>
  The statements run in the order of the source: the three statistics first, then the
  feature extraction, whose exception ends the call. \<open>Date.now()\<close> is the argument
  \<open>now\<close>.
\<close>

definition analyzeCoughCharacteristics :: "AudioBuffer \<Rightarrow> number \<Rightarrow> js_error + CoughAnalysis" where
  "analyzeCoughCharacteristics audioBuffer now =
     (let channelData = channelData0 audioBuffer;
          d = bufferDuration audioBuffer;
          r = calculateRMS channelData;
          zcr = calculateZeroCrossingRate channelData;
          centroid = calculateSpectralCentroid channelData (sampleRate audioBuffer)
      in case extractMFCCFeatures audioBuffer of
           Inl e \<Rightarrow> Inl e
         | Inr features \<Rightarrow>
             Inr \<lparr>duration = d, rms = r, zeroCrossingRate = zcr,
                  spectralCentroid = centroid, mfccFeatures = features,
                  timestamp = now\<rparr>)"

section \<open>The spectral centroid with overflow\<close>

text \<open>
  The range of the spectral centroid depends on what the idealisation above leaves out:
  a value too large for single precision is stored in a \<open>Float32Array\<close> as an
  infinity, and \<open>0 * Infinity\<close> is \<open>NaN\<close>. For \<open>calculateSpectralCentroid\<close> and the
  transform it calls, the numbers are therefore modelled a second time, with the two
  infinities and with the overflow of every double operation and of every store into a
  \<open>Float32Array\<close>. Rounding below the thresholds and the sign of zero are still not
  represented.
\<close>

datatype xnumber = XNaN | PInf | NInf | Fin real

text \<open>
  The thresholds of round-to-nearest: the exact result of a double operation becomes an
  infinity from \<open>2^1024 - 2^970\<close> on, a value stored in a \<open>Float32Array\<close> from
  \<open>2^128 - 2^103\<close> on.
\<close>

definition dblLimit :: real where "dblLimit = 2 ^ 1024 - 2 ^ 970"
definition f32Limit :: real where "f32Limit = 2 ^ 128 - 2 ^ 103"

definition toDouble :: "real \<Rightarrow> xnumber" where
  "toDouble v = (if v \<ge> dblLimit then PInf else if v \<le> - dblLimit then NInf else Fin v)"

fun toFloat32 :: "xnumber \<Rightarrow> xnumber" where
  "toFloat32 (Fin v) = (if v \<ge> f32Limit then PInf else if v \<le> - f32Limit then NInf else Fin v)"
| "toFloat32 z = z"

text \<open>
  The arithmetic of the infinities: \<open>Infinity - Infinity\<close>, \<open>0 * Infinity\<close> and
  \<open>Infinity / Infinity\<close> are \<open>NaN\<close>; a finite number over an infinity is \<open>0\<close>; a
  non-zero number over zero is an infinity with the sign of the dividend (the zero
  divisors of the code are lengths, so positive zeros).
\<close>

fun xadd :: "xnumber \<Rightarrow> xnumber \<Rightarrow> xnumber" where
  "xadd (Fin x) (Fin y) = toDouble (x + y)"
| "xadd XNaN _ = XNaN"
| "xadd _ XNaN = XNaN"
| "xadd PInf NInf = XNaN"
| "xadd NInf PInf = XNaN"
| "xadd PInf _ = PInf"
| "xadd _ PInf = PInf"
| "xadd NInf _ = NInf"
| "xadd _ NInf = NInf"

fun xmul :: "xnumber \<Rightarrow> xnumber \<Rightarrow> xnumber" where
  "xmul (Fin x) (Fin y) = toDouble (x * y)"
| "xmul XNaN _ = XNaN"
| "xmul _ XNaN = XNaN"
| "xmul PInf (Fin y) = (if y = 0 then XNaN else if y > 0 then PInf else NInf)"
| "xmul NInf (Fin y) = (if y = 0 then XNaN else if y > 0 then NInf else PInf)"
| "xmul (Fin x) PInf = (if x = 0 then XNaN else if x > 0 then PInf else NInf)"
| "xmul (Fin x) NInf = (if x = 0 then XNaN else if x > 0 then NInf else PInf)"
| "xmul PInf PInf = PInf"
| "xmul NInf NInf = PInf"
| "xmul PInf NInf = NInf"
| "xmul NInf PInf = NInf"

fun xdiv :: "xnumber \<Rightarrow> xnumber \<Rightarrow> xnumber" where
  "xdiv (Fin x) (Fin y) =
     (if y = 0 then (if x = 0 then XNaN else if x > 0 then PInf else NInf)
      else toDouble (x / y))"
| "xdiv XNaN _ = XNaN"
| "xdiv _ XNaN = XNaN"
| "xdiv (Fin x) PInf = Fin 0"
| "xdiv (Fin x) NInf = Fin 0"
| "xdiv PInf (Fin y) = (if y \<ge> 0 then PInf else NInf)"
| "xdiv NInf (Fin y) = (if y \<ge> 0 then NInf else PInf)"
| "xdiv _ _ = XNaN"

fun xsqrt :: "xnumber \<Rightarrow> xnumber" where
  "xsqrt (Fin x) = (if x < 0 then XNaN else Fin (sqrt x))"
| "xsqrt PInf = PInf"
| "xsqrt _ = XNaN"

fun xcos :: "xnumber \<Rightarrow> xnumber" where
  "xcos (Fin x) = Fin (cos x)"
| "xcos _ = XNaN"

fun xsin :: "xnumber \<Rightarrow> xnumber" where
  "xsin (Fin x) = Fin (sin x)"
| "xsin _ = XNaN"

fun xgt :: "xnumber \<Rightarrow> real \<Rightarrow> bool" where
  "xgt (Fin x) c = (x > c)"
| "xgt PInf c = True"
| "xgt _ c = False"

definition xreadAt :: "xnumber list \<Rightarrow> nat \<Rightarrow> xnumber" where
  "xreadAt xs i = (if i < length xs then xs ! i else XNaN)"

text \<open>
  \<open>computeFFT\<close> again: the body of the inner loop, the inner loop, and the outer loop
  with its two stores into the \<open>Float32Array\<close> \<open>result\<close>.
\<close>

definition fftStep_f32 ::
  "xnumber list \<Rightarrow> nat \<Rightarrow> nat \<Rightarrow> xnumber \<times> xnumber \<Rightarrow> xnumber \<times> xnumber" where
  "fftStep_f32 signal k n acc =
     (let N = length signal;
          (realSum, imagSum) = acc;
          angle = xdiv (xmul (xmul (xmul (Fin (-2)) (Fin pi)) (Fin (real k))) (Fin (real n)))
                    (Fin (real N))
      in (xadd realSum (xmul (xreadAt signal n) (xcos angle)),
          xadd imagSum (xmul (xreadAt signal n) (xsin angle))))"

definition fftSums_f32 :: "xnumber list \<Rightarrow> nat \<Rightarrow> xnumber \<times> xnumber" where
  "fftSums_f32 signal k = fold (fftStep_f32 signal k) [0..<length signal] (Fin 0, Fin 0)"

definition computeFFT_f32 :: "xnumber list \<Rightarrow> xnumber list" where
  "computeFFT_f32 signal =
     (let N = length signal
      in concat
           (map (\<lambda>k. let (realSum, imagSum) = fftSums_f32 signal k
                     in [toFloat32 realSum, toFloat32 imagSum])
              [0..<N]))"

text \<open>
  \<open>calculateSpectralCentroid\<close> again: the body of its loop, the loop, and the guarded
  quotient.
\<close>

definition centroidStep_f32 ::
  "xnumber list \<Rightarrow> xnumber \<Rightarrow> nat \<Rightarrow> xnumber \<times> xnumber \<Rightarrow> xnumber \<times> xnumber" where
  "centroidStep_f32 fft rate i acc =
     (let M = length fft div 2;
          (weightedSum, magnitudeSum) = acc;
          re = xreadAt fft (i * 2);
          im = xreadAt fft (i * 2 + 1);
          magnitude = xsqrt (xadd (xmul re re) (xmul im im));
          frequency = xdiv (xmul (Fin (real i)) rate) (Fin (2 * real M))
      in (xadd weightedSum (xmul frequency magnitude), xadd magnitudeSum magnitude))"

definition centroidSums_f32 :: "xnumber list \<Rightarrow> xnumber \<Rightarrow> xnumber \<times> xnumber" where
  "centroidSums_f32 fft rate =
     fold (centroidStep_f32 fft rate) [0..<length fft div 2] (Fin 0, Fin 0)"

definition calculateSpectralCentroid_f32 :: "xnumber list \<Rightarrow> xnumber \<Rightarrow> xnumber" where
  "calculateSpectralCentroid_f32 signal rate =
     (let fft = computeFFT_f32 signal;
          (weightedSum, magnitudeSum) = centroidSums_f32 fft rate
      in if xgt magnitudeSum 0 then xdiv weightedSum magnitudeSum else Fin 0)"

section \<open>Quantities and inputs of the statements\<close>

text \<open>
  The banding of the claims, as the specification words it: \<open>"high"\<close> if \<open>s > 0.6\<close>,
  \<open>"medium"\<close> if \<open>s > 0.3\<close>, else \<open>"low"\<close>. It is compared below with the conditionals
  written out in \<open>pushedConditions\<close>.
\<close>

definition spec_confidence :: "real \<Rightarrow> confidenceBand" where
  "spec_confidence s = (if s > 0.6 then High else if s > 0.3 then Medium else Low)"

text \<open>The sum of the four capped scores, by which \<open>predict\<close> divides.\<close>

definition cappedTotal :: "CoughAnalysis \<Rightarrow> real" where
  "cappedTotal a =
     min (covidScore a) 0.95 + min (asthmaScore a) 0.95 +
     min (bronchitisScore a) 0.95 + min (pneumoniaScore a) 0.95"

text \<open>
  The direct Fourier sums of a real frame: real part, imaginary part and magnitude of
  bin \<open>k\<close>.
\<close>

definition dftRe :: "real list \<Rightarrow> nat \<Rightarrow> real" where
  "dftRe x k = (\<Sum>n<length x. x ! n * cos (-2 * pi * real k * real n / real (length x)))"

definition dftIm :: "real list \<Rightarrow> nat \<Rightarrow> real" where
  "dftIm x k = (\<Sum>n<length x. x ! n * sin (-2 * pi * real k * real n / real (length x)))"

definition dftMag :: "real list \<Rightarrow> nat \<Rightarrow> real" where
  "dftMag x i = sqrt (dftRe x i * dftRe x i + dftIm x i * dftIm x i)"

text \<open>
  A record on which every comparison of the rules is false, and a record whose
  statistics are those of silence lasting one second.
\<close>

definition nanRecord :: CoughAnalysis where
  "nanRecord =
     \<lparr>duration = NaN, rms = NaN, zeroCrossingRate = NaN, spectralCentroid = NaN,
      mfccFeatures = [], timestamp = NaN\<rparr>"

definition boundaryRecord :: CoughAnalysis where
  "boundaryRecord =
     \<lparr>duration = Val 1, rms = Val 0, zeroCrossingRate = Val 0, spectralCentroid = Val 0,
      mfccFeatures = [], timestamp = Val 0\<rparr>"

text \<open>
  The number of frames, among the first \<open>n\<close> frames of a feature set, whose
  coefficient at index 2 exceeds \<open>0.5\<close> and whose coefficient at index 3 is below
  \<open>-0.3\<close>; a frame that matches, and one that does not.
\<close>

definition matchingFrames :: "number list \<Rightarrow> nat \<Rightarrow> nat" where
  "matchingFrames mfcc n =
     length (filter (\<lambda>k. ngt (mfcc ! (13 * k + 2)) 0.5 \<and> nlt (mfcc ! (13 * k + 3)) (-0.3))
               [0..<n])"

definition wheezeFrame :: "number list" where
  "wheezeFrame =
     [Val 0, Val 0, Val 1, Val (-1), Val 0, Val 0, Val 0, Val 0, Val 0, Val 0, Val 0,
      Val 0, Val 0]"

definition quietFrame :: "number list" where
  "quietFrame =
     [Val 0, Val 0, Val 0, Val 0, Val 0, Val 0, Val 0, Val 0, Val 0, Val 0, Val 0,
      Val 0, Val 0]"


definition shortBuffer :: AudioBuffer where
  "shortBuffer =
     \<lparr>channelData0 = replicate 1000 (Val 0), sampleRate = Val 44100,
      bufferDuration = Val (1000 / 44100)\<rparr>"

definition silence :: AudioBuffer where
  "silence =
     \<lparr>channelData0 = replicate 44100 (Val 0), sampleRate = Val 44100,
      bufferDuration = Val 1\<rparr>"

text \<open>
  The thirteen coefficients of a frame of 2048 zeros, the feature set of 83 such frames,
  and the analysis record of \<open>silence\<close>.
\<close>

definition silentCoefficients :: "number list" where
  "silentCoefficients = map (\<lambda>i. mfccCoefficient (replicate 2048 (Val 0)) i) [0..<13]"

definition silenceFeatures :: "number list" where
  "silenceFeatures = concat (map (\<lambda>frame. silentCoefficients) [0..<83])"

definition silenceRecord :: "number \<Rightarrow> CoughAnalysis" where
  "silenceRecord now =
     \<lparr>duration = Val 1, rms = Val 0, zeroCrossingRate = Val 0, spectralCentroid = Val 0,
      mfccFeatures = silenceFeatures, timestamp = now\<rparr>"

text \<open>
  Two waveforms of two finite samples: one whose first bin sum, \<open>2^128\<close>, is beyond
  single precision, and one whose spectrum lies in the bin at a quarter of the sample
  rate.
\<close>

definition overflowSignal :: "xnumber list" where
  "overflowSignal = [Fin (2 ^ 127), Fin (2 ^ 127)]"

definition alternatingSignal :: "xnumber list" where
  "alternatingSignal = [Fin 1, Fin (- 1)]"

section \<open>Properties of the classifier\<close>

subsection \<open>Sorting keeps the elements and their sum\<close>

lemma set_insertCondition: "set (insertCondition c ds) = insert c (set ds)"
  by (induction ds) auto

lemma set_sortConditions: "set (sortConditions cs) = set cs"
  by (induction cs) (simp_all add: sortConditions_def set_insertCondition)

lemma sum_insertCondition:
  "sum_list (map probability (insertCondition c ds)) =
   probability c + sum_list (map probability ds)"
  by (induction ds) auto

lemma sum_sortConditions:
  "sum_list (map probability (sortConditions cs)) = sum_list (map probability cs)"
  by (induction cs) (simp_all add: sortConditions_def sum_insertCondition)

lemma foldl_total:
  "foldl (\<lambda>sum c. sum + probability c) s cs = s + sum_list (map probability cs)"
  by (induction cs arbitrary: s) simp_all

subsection \<open>The scores\<close>

lemma detectWheezing_Nil: "detectWheezing [] = False"
  by (simp add: detectWheezing_def wheezingLoop.simps)

lemma nanRecord_scores:
  "covidScore nanRecord = 0" "asthmaScore nanRecord = 0"
  "bronchitisScore nanRecord = 0" "pneumoniaScore nanRecord = 0"
  by (simp_all add: covidScore_def asthmaScore_def bronchitisScore_def pneumoniaScore_def
      nanRecord_def detectWheezing_Nil)

lemma boundaryRecord_scores:
  "covidScore boundaryRecord = 0.5" "asthmaScore boundaryRecord = 0.3"
  "bronchitisScore boundaryRecord = 0.5" "pneumoniaScore boundaryRecord = 0.5"
  by (simp_all add: covidScore_def asthmaScore_def bronchitisScore_def pneumoniaScore_def
      boundaryRecord_def detectWheezing_Nil)

lemma covidScore_nonneg: "0 \<le> covidScore a"
  by (simp add: covidScore_def Let_def)

lemma asthmaScore_nonneg: "0 \<le> asthmaScore a"
  by (simp add: asthmaScore_def Let_def)

lemma bronchitisScore_nonneg: "0 \<le> bronchitisScore a"
  by (simp add: bronchitisScore_def Let_def)

lemma pneumoniaScore_nonneg: "0 \<le> pneumoniaScore a"
  by (simp add: pneumoniaScore_def Let_def)

subsection \<open>Determinism\<close>


subsection \<open>All raw scores zero\<close>

text \<open>
  Claim C3, as stated, fails: on \<open>nanRecord\<close> all four raw scores are zero, and the
  dominant condition is not \<open>"Unknown"\<close>.
\<close>

theorem zero_scores_not_unknown:
  "covidScore nanRecord = 0 \<and> asthmaScore nanRecord = 0 \<and>
   bronchitisScore nanRecord = 0 \<and> pneumoniaScore nanRecord = 0 \<and>
   dominantCondition (predict nanRecord (Val 0)) \<noteq> ''Unknown''"
  by (simp add: nanRecord_scores predict_def pushedConditions_def sortConditions_def Let_def)

text \<open>
  Claim C3, amended. When all four raw scores are zero, the four probabilities remain
  zero, the conditions keep the order in which they were pushed, and the dominant
  condition is the first of them, \<open>"COVID-19"\<close>: the fallback \<open>"Unknown"\<close> is for an
  empty list of conditions, and the list always has four entries.
\<close>

theorem zero_scores_dominant_first:
  assumes "covidScore a = 0" "asthmaScore a = 0" "bronchitisScore a = 0" "pneumoniaScore a = 0"
  shows "map probability (conditions (predict a now)) = [0, 0, 0, 0] \<and>
         map name (conditions (predict a now)) =
           [''COVID-19'', ''Asthma'', ''Bronchitis'', ''Pneumonia''] \<and>
         dominantCondition (predict a now) = ''COVID-19''"
  using assms by (simp add: predict_def pushedConditions_def sortConditions_def Let_def)

theorem zero_scores_dominant_first_witness:
  "covidScore nanRecord = 0 \<and> asthmaScore nanRecord = 0 \<and>
   bronchitisScore nanRecord = 0 \<and> pneumoniaScore nanRecord = 0 \<and>
   map probability (conditions (predict nanRecord (Val 0))) = [0, 0, 0, 0] \<and>
   map name (conditions (predict nanRecord (Val 0))) =
     [''COVID-19'', ''Asthma'', ''Bronchitis'', ''Pneumonia''] \<and>
   dominantCondition (predict nanRecord (Val 0)) = ''COVID-19''"
  using zero_scores_dominant_first[of nanRecord "Val 0"] nanRecord_scores by simp

subsection \<open>Confidence bands\<close>

lemma name_confidence_predict:
  "(\<lambda>c. (name c, confidence c)) ` set (conditions (predict a now)) =
   (\<lambda>c. (name c, confidence c)) ` set (pushedConditions a)"
  by (simp add: predict_def Let_def image_image set_sortConditions)

text \<open>
  Claim C4, as stated, fails in its last part: on \<open>boundaryRecord\<close> the raw score of
  Asthma is exactly \<open>0.3\<close>, and its confidence band is \<open>"low"\<close>, not \<open>"medium"\<close>.
\<close>

theorem raw_score_03_is_low:
  "asthmaScore boundaryRecord = 0.3 \<and>
   name (conditions (predict boundaryRecord (Val 0)) ! 3) = ''Asthma'' \<and>
   confidence (conditions (predict boundaryRecord (Val 0)) ! 3) = Low \<and>
   confidence (conditions (predict boundaryRecord (Val 0)) ! 3) \<noteq> Medium"
  by (simp add: boundaryRecord_scores predict_def pushedConditions_def sortConditions_def
      Let_def)

text \<open>
  Claim C4, amended. The conditions of a classification result are the four named
  conditions, each with the band of its raw score before normalization: \<open>"high"\<close> if
  \<open>s > 0.6\<close>, \<open>"medium"\<close> if \<open>s > 0.3\<close>, else \<open>"low"\<close> (the cap at \<open>0.95\<close> does not
  change the band). Both comparisons are strict: a raw score of exactly \<open>0.6\<close> is
  \<open>"medium"\<close> and one of exactly \<open>0.3\<close> is \<open>"low"\<close>.
\<close>

theorem confidence_band_of_raw_score:
  "(\<lambda>c. (name c, confidence c)) ` set (conditions (predict a now)) =
     {(''COVID-19'', spec_confidence (covidScore a)),
      (''Asthma'', spec_confidence (asthmaScore a)),
      (''Bronchitis'', spec_confidence (bronchitisScore a)),
      (''Pneumonia'', spec_confidence (pneumoniaScore a))} \<and>
   spec_confidence (min s 0.95) = spec_confidence s \<and>
   spec_confidence 0.6 = Medium \<and> spec_confidence 0.3 = Low"
  unfolding name_confidence_predict
  by (simp add: pushedConditions_def spec_confidence_def min_def)

subsection \<open>Normalization\<close>

lemma total_pushed: "sum_list (map probability (pushedConditions a)) = cappedTotal a"
  by (simp add: pushedConditions_def cappedTotal_def)

lemma cappedTotal_pos:
  assumes "covidScore a \<noteq> 0 \<or> asthmaScore a \<noteq> 0 \<or> bronchitisScore a \<noteq> 0 \<or>
           pneumoniaScore a \<noteq> 0"
  shows "0 < cappedTotal a"
  using assms covidScore_nonneg[of a] asthmaScore_nonneg[of a]
    bronchitisScore_nonneg[of a] pneumoniaScore_nonneg[of a]
  unfolding cappedTotal_def by (auto simp: min_def)

lemma predict_conditions_pos:
  assumes "0 < cappedTotal a"
  shows "conditions (predict a now) =
    map (\<lambda>c. c\<lparr>probability := (probability c / cappedTotal a) * 100\<rparr>)
      (sortConditions (pushedConditions a))"
  using assms by (simp add: predict_def Let_def foldl_total sum_sortConditions total_pushed)

lemma sum_scaled:
  "sum_list (map (\<lambda>c. probability c / t * 100) cs) =
   sum_list (map probability cs) / t * (100::real)"
  by (induction cs) (simp_all add: add_divide_distrib distrib_right)

text \<open>
  Claim C6. When at least one of the four raw scores is not zero, each condition of the
  result has the probability \<open>(score / total) * 100\<close>, where the score is the raw score
  capped at \<open>0.95\<close> and the total is the sum of the four capped scores, and the
  probabilities sum to \<open>100\<close> (over the reals exactly, hence within the tolerance
  \<open>1e-6\<close>).
\<close>

theorem normalized_probabilities_sum_100:
  assumes "covidScore a \<noteq> 0 \<or> asthmaScore a \<noteq> 0 \<or> bronchitisScore a \<noteq> 0 \<or>
           pneumoniaScore a \<noteq> 0"
  shows "(\<lambda>c. (name c, probability c)) ` set (conditions (predict a now)) =
     {(''COVID-19'', min (covidScore a) 0.95 / cappedTotal a * 100),
      (''Asthma'', min (asthmaScore a) 0.95 / cappedTotal a * 100),
      (''Bronchitis'', min (bronchitisScore a) 0.95 / cappedTotal a * 100),
      (''Pneumonia'', min (pneumoniaScore a) 0.95 / cappedTotal a * 100)} \<and>
    sum_list (map probability (conditions (predict a now))) = 100 \<and>
    \<bar>sum_list (map probability (conditions (predict a now))) - 100\<bar> \<le> (1 / 10 ^ 6) * 100"
proof -
  have pos: "0 < cappedTotal a" using assms by (rule cappedTotal_pos)
  have "map probability (conditions (predict a now)) =
      map (\<lambda>c. probability c / cappedTotal a * 100) (sortConditions (pushedConditions a))"
    unfolding predict_conditions_pos[OF pos] by simp
  then have "sum_list (map probability (conditions (predict a now))) =
      sum_list (map probability (sortConditions (pushedConditions a))) / cappedTotal a * 100"
    by (simp only: sum_scaled)
  then have s: "sum_list (map probability (conditions (predict a now))) = 100"
    using pos by (simp add: sum_sortConditions total_pushed)
  have i: "(\<lambda>c. (name c, probability c)) ` set (conditions (predict a now)) =
     (\<lambda>c. (name c, probability c / cappedTotal a * 100)) ` set (pushedConditions a)"
    by (simp add: predict_conditions_pos[OF pos] image_image set_sortConditions)
  show ?thesis unfolding i using s by (simp add: pushedConditions_def)
qed

theorem normalized_probabilities_sum_100_witness:
  "covidScore boundaryRecord \<noteq> 0 \<and>
   sum_list (map probability (conditions (predict boundaryRecord (Val 0)))) = 100 \<and>
   (''Asthma'', 50 / 3) \<in>
     (\<lambda>c. (name c, probability c)) ` set (conditions (predict boundaryRecord (Val 0)))"
  using normalized_probabilities_sum_100[of boundaryRecord "Val 0"]
  by (simp add: boundaryRecord_scores cappedTotal_def)

subsection \<open>The wheeze heuristic\<close>

lemma wheezingLoop_count:
  assumes "length f = 13 * n" "j \<le> n"
  shows "wheezingLoop f (13 * j) c =
    c + length (filter (\<lambda>k. ngt (f ! (13 * k + 2)) 0.5 \<and> nlt (f ! (13 * k + 3)) (-0.3))
                  [j..<n])"
  using assms(2)
proof (induction "n - j" arbitrary: j c)
  case 0
  then have "j = n" by simp
  then show ?case using assms(1) by (simp add: wheezingLoop.simps)
next
  case (Suc d)
  then have lt: "j < n" and d: "d = n - Suc j" and le: "Suc j \<le> n" by simp_all
  have r: "readAt f (13 * j + 2) = f ! (13 * j + 2)"
    "readAt f (13 * j + 3) = f ! (13 * j + 3)"
    using lt assms(1) by (simp_all add: readAt_def)
  have s: "13 * j + 13 = 13 * Suc j" by simp
  have i: "13 * j < length f" using lt assms(1) by simp
  show ?case
    apply (subst wheezingLoop.simps)
    apply (simp only: i if_True r s Suc.hyps(1)[OF d le])
    apply (simp add: upt_conv_Cons[OF lt])
    done
qed

lemma detectWheezing_count:
  assumes "length f = 13 * n"
  shows "detectWheezing f \<longleftrightarrow> real (matchingFrames f n) > real n / 2"
proof -
  have "wheezingLoop f 0 0 = matchingFrames f n"
    using wheezingLoop_count[OF assms, of 0 0] by (simp add: matchingFrames_def)
  then show ?thesis by (simp add: detectWheezing_def assms)
qed

lemma upt_0_2: "[0..<2] = [0, 1]"
  by (simp add: numeral_2_eq_2)

lemma matchingFrames_two: "matchingFrames (wheezeFrame @ wheezeFrame) 2 = 2"
  by (simp add: matchingFrames_def wheezeFrame_def upt_0_2)

lemma matchingFrames_one: "matchingFrames (wheezeFrame @ quietFrame) 2 = 1"
  by (simp add: matchingFrames_def wheezeFrame_def quietFrame_def upt_0_2)

text \<open>
  Claim C7. On a feature set of \<open>n\<close> frames (length \<open>13 n\<close>) the wheeze heuristic
  fires exactly when the number of matching frames is strictly greater than \<open>n / 2\<close>;
  so it fires with \<open>floor(n / 2) + 1\<close> matching frames and does not fire with
  \<open>floor(n / 2)\<close>.
\<close>

theorem wheeze_fires_on_majority:
  assumes "length f = 13 * n"
  shows "(detectWheezing f \<longleftrightarrow> real (matchingFrames f n) > real n / 2) \<and>
         (matchingFrames f n = n div 2 + 1 \<longrightarrow> detectWheezing f) \<and>
         (matchingFrames f n = n div 2 \<longrightarrow> \<not> detectWheezing f)"
proof -
  have iff: "detectWheezing f \<longleftrightarrow> real (matchingFrames f n) > real n / 2"
    using assms by (rule detectWheezing_count)
  have up: "real n / 2 < real (n div 2 + 1)"
  proof -
    have "n < 2 * (n div 2 + 1)" by presburger
    then have "real n < 2 * real (n div 2 + 1)"
      by (metis of_nat_less_iff of_nat_mult of_nat_numeral)
    then show ?thesis by simp
  qed
  have down: "\<not> real n / 2 < real (n div 2)"
  proof -
    have "2 * (n div 2) \<le> n" by presburger
    then have "2 * real (n div 2) \<le> real n"
      by (metis of_nat_le_iff of_nat_mult of_nat_numeral)
    then show ?thesis by simp
  qed
  show ?thesis using iff up down by simp
qed

theorem wheeze_fires_on_majority_witness:
  "length (wheezeFrame @ wheezeFrame) = 13 * 2 \<and>
   matchingFrames (wheezeFrame @ wheezeFrame) 2 = 2 div 2 + 1 \<and>
   detectWheezing (wheezeFrame @ wheezeFrame) \<and>
   length (wheezeFrame @ quietFrame) = 13 * 2 \<and>
   matchingFrames (wheezeFrame @ quietFrame) 2 = 2 div 2 \<and>
   \<not> detectWheezing (wheezeFrame @ quietFrame)"
proof -
  have l: "length (wheezeFrame @ wheezeFrame) = 13 * 2"
    "length (wheezeFrame @ quietFrame) = 13 * 2"
    by (simp_all add: wheezeFrame_def quietFrame_def)
  show ?thesis
    using wheeze_fires_on_majority[OF l(1)] wheeze_fires_on_majority[OF l(2)] l
    by (simp add: matchingFrames_two matchingFrames_one)
qed

section \<open>Properties of the audio processor\<close>

subsection \<open>The spectral transform on finite samples\<close>

lemma readAt_map_Val: "i < length xs \<Longrightarrow> readAt (map Val xs) i = Val (xs ! i)"
  by (simp add: readAt_def)

lemma fft_inner_fold:
  assumes "m \<le> length x" "length x \<noteq> 0"
  shows "fold (\<lambda>n (realSum, imagSum).
                 (nadd realSum (nmul (readAt (map Val x) n)
                    (ncos (ndiv (Val (-2 * pi * real k * real n)) (Val (real (length x)))))),
                  nadd imagSum (nmul (readAt (map Val x) n)
                    (nsin (ndiv (Val (-2 * pi * real k * real n)) (Val (real (length x))))))))
           [0..<m] (Val r, Val i)
         = (Val (r + (\<Sum>n<m. x ! n * cos (-2 * pi * real k * real n / real (length x)))),
            Val (i + (\<Sum>n<m. x ! n * sin (-2 * pi * real k * real n / real (length x)))))"
  using assms
proof (induction m)
  case 0
  then show ?case by simp
next
  case (Suc m)
  then show ?case by (simp add: readAt_map_Val add.assoc)
qed

lemma fftSums_Val: "fftSums (map Val x) k = (Val (dftRe x k), Val (dftIm x k))"
proof (cases "length x = 0")
  case True
  then show ?thesis by (simp add: fftSums_def dftRe_def dftIm_def)
next
  case False
  show ?thesis
    unfolding fftSums_def Let_def length_map dftRe_def dftIm_def
    using fft_inner_fold[of "length x" x k 0 0] False by simp
qed

lemma concat_pairs_length: "length (concat (map (\<lambda>k. [a k, b k]) [0..<N])) = 2 * N"
  by (induction N) simp_all

lemma concat_pairs_nth:
  "k < N \<Longrightarrow> concat (map (\<lambda>k. [a k, b k]) [0..<N]) ! (2 * k) = a k \<and>
               concat (map (\<lambda>k. [a k, b k]) [0..<N]) ! (2 * k + 1) = b k"
proof (induction N)
  case 0
  then show ?case by simp
next
  case (Suc N)
  show ?case
  proof (cases "k < N")
    case True
    with Suc.IH show ?thesis
      by (simp add: nth_append concat_pairs_length)
  next
    case False
    with Suc.prems have "k = N" by simp
    then show ?thesis by (simp add: nth_append concat_pairs_length)
  qed
qed

lemma computeFFT_Val:
  "computeFFT (map Val x) =
   concat (map (\<lambda>k. [Val (dftRe x k), Val (dftIm x k)]) [0..<length x])"
  by (simp add: computeFFT_def fftSums_Val)

lemma length_computeFFT_Val: "length (computeFFT (map Val x)) = 2 * length x"
  by (simp add: computeFFT_Val concat_pairs_length)



subsection \<open>The spectral centroid\<close>

lemma readAt_fft:
  assumes "i < length x"
  shows "readAt (computeFFT (map Val x)) (i * 2) = Val (dftRe x i)"
    and "readAt (computeFFT (map Val x)) (i * 2 + 1) = Val (dftIm x i)"
    and "readAt (computeFFT (map Val x)) (Suc (i * 2)) = Val (dftIm x i)"
proof -
  have l: "i * 2 < length (computeFFT (map Val x))"
    "i * 2 + 1 < length (computeFFT (map Val x))"
    using assms by (simp_all add: length_computeFFT_Val)
  have n: "computeFFT (map Val x) ! (2 * i) = Val (dftRe x i)"
    "computeFFT (map Val x) ! (2 * i + 1) = Val (dftIm x i)"
    unfolding computeFFT_Val
    using concat_pairs_nth[where a = "\<lambda>k. Val (dftRe x k)" and b = "\<lambda>k. Val (dftIm x k)",
        OF assms]
    by simp_all
  show "readAt (computeFFT (map Val x)) (i * 2) = Val (dftRe x i)"
    using l(1) n(1) by (simp add: readAt_def mult.commute)
  show "readAt (computeFFT (map Val x)) (i * 2 + 1) = Val (dftIm x i)"
    using l(2) n(2) by (simp add: readAt_def mult.commute)
  then show "readAt (computeFFT (map Val x)) (Suc (i * 2)) = Val (dftIm x i)"
    by simp
qed

lemma dftMag_nonneg: "0 \<le> dftMag x i"
  by (simp add: dftMag_def)

lemma centroid_fold:
  assumes "k \<le> length x" "M \<noteq> 0"
  shows "fold (\<lambda>i (weightedSum, magnitudeSum).
                 (nadd weightedSum
                    (nmul (ndiv (nmul (Val (real i)) (Val sr)) (Val (2 * real M)))
                       (nsqrt (nadd (nmul (readAt (computeFFT (map Val x)) (i * 2))
                                          (readAt (computeFFT (map Val x)) (i * 2)))
                                    (nmul (readAt (computeFFT (map Val x)) (i * 2 + 1))
                                          (readAt (computeFFT (map Val x)) (i * 2 + 1)))))),
                  nadd magnitudeSum
                    (nsqrt (nadd (nmul (readAt (computeFFT (map Val x)) (i * 2))
                                       (readAt (computeFFT (map Val x)) (i * 2)))
                                 (nmul (readAt (computeFFT (map Val x)) (i * 2 + 1))
                                       (readAt (computeFFT (map Val x)) (i * 2 + 1)))))))
           [0..<k] (Val w, Val m)
         = (Val (w + (\<Sum>i<k. real i * sr / (2 * real M) * dftMag x i)),
            Val (m + (\<Sum>i<k. dftMag x i)))"
  using assms
proof (induction k)
  case 0
  then show ?case by simp
next
  case (Suc k)
  have nn: "\<not> dftRe x k * dftRe x k + dftIm x k * dftIm x k < 0"
    by (simp add: not_less)
  from Suc show ?case
    by (simp add: readAt_fft nn dftMag_def add.assoc)
qed

lemma centroidSums_Val:
  assumes "x \<noteq> []"
  shows "centroidSums (computeFFT (map Val x)) (Val sr) =
    (Val (\<Sum>i<length x. real i * sr / (2 * real (length x)) * dftMag x i),
     Val (\<Sum>i<length x. dftMag x i))"
  unfolding centroidSums_def Let_def length_computeFFT_Val
  using centroid_fold[of "length x" x "length x" sr 0 0] assms by simp

lemma weighted_bound:
  assumes "0 < sr" "x \<noteq> []"
  shows "(\<Sum>i<length x. real i * sr / (2 * real (length x)) * dftMag x i)
         \<le> (real (length x) - 1) * sr / (2 * real (length x)) * (\<Sum>i<length x. dftMag x i)"
proof -
  have "real i * sr / (2 * real (length x)) * dftMag x i
        \<le> (real (length x) - 1) * sr / (2 * real (length x)) * dftMag x i"
    if "i \<in> {..<length x}" for i
  proof -
    have "real i \<le> real (length x) - 1" using that by auto
    then have "real i * sr / (2 * real (length x))
        \<le> (real (length x) - 1) * sr / (2 * real (length x))"
      using assms by (simp add: divide_right_mono mult_right_mono)
    then show ?thesis by (rule mult_right_mono) (rule dftMag_nonneg)
  qed
  then have "(\<Sum>i<length x. real i * sr / (2 * real (length x)) * dftMag x i)
     \<le> (\<Sum>i<length x. (real (length x) - 1) * sr / (2 * real (length x)) * dftMag x i)"
    by (rule sum_mono)
  then show ?thesis by (simp add: sum_distrib_left)
qed

lemma weighted_nonneg:
  assumes "0 < sr"
  shows "0 \<le> (\<Sum>i<length x. real i * sr / (2 * real (length x)) * dftMag x i)"
  using assms
  by (intro sum_nonneg mult_nonneg_nonneg divide_nonneg_nonneg dftMag_nonneg) simp_all

lemma fold_fixed: "(\<And>n. step n z = z) \<Longrightarrow> fold step ns z = z"
  by (induction ns) simp_all

lemma fold_absorb:
  assumes "\<And>acc. step p acc = z" "\<And>n. step n z = z" "p \<in> set ns"
  shows "fold step ns acc = z"
  using assms(3)
proof (induction ns arbitrary: acc)
  case Nil
  then show ?case by simp
next
  case (Cons n ns)
  show ?case
  proof (cases "n = p")
    case True
    then show ?thesis using assms(1,2) by (simp add: fold_fixed)
  next
    case False
    with Cons show ?thesis by simp
  qed
qed

subsection \<open>The frame count\<close>

lemma length_preEmphasis: "length (preEmphasis signal alpha) = length signal"
  by (simp add: preEmphasis_def)

lemma numFrames_div: "numFrames n = (int n - 2048) div 512 + 1"
proof -
  have "(real n - 2048) / 512 = real_of_int (int n - 2048) / real_of_int 512" by simp
  then show ?thesis unfolding numFrames_def by (simp only: floor_divide_of_int_eq)
qed

lemma numFrames_long: "2048 \<le> n \<Longrightarrow> numFrames n = int ((n - 2048) div 512) + 1"
  unfolding numFrames_div by (simp add: zdiv_int of_nat_diff)

lemma numFrames_zero: "1536 \<le> n \<Longrightarrow> n < 2048 \<Longrightarrow> numFrames n = 0"
  unfolding numFrames_div by simp

lemma numFrames_negative: "n < 1536 \<Longrightarrow> numFrames n < 0"
  unfolding numFrames_div by simp

lemma extractMFCCFeatures_short:
  "length (channelData0 b) < 1536 \<Longrightarrow> extractMFCCFeatures b = Inl RangeError"
  using numFrames_negative[of "length (channelData0 b)"]
  by (simp add: extractMFCCFeatures_def Let_def length_preEmphasis)

lemma extractMFCCFeatures_no_frame:
  "1536 \<le> length (channelData0 b) \<Longrightarrow> length (channelData0 b) < 2048 \<Longrightarrow>
   extractMFCCFeatures b = Inr []"
  using numFrames_zero[of "length (channelData0 b)"]
  by (simp add: extractMFCCFeatures_def Let_def length_preEmphasis)

text \<open>
  Claim C2 holds for \<open>N \<ge> 2048\<close> (\<open>numFrames_long\<close>) and for \<open>1536 \<le> N < 2048\<close>
  (\<open>numFrames_zero\<close>, \<open>extractMFCCFeatures_no_frame\<close>). It fails below 1536 samples: on
  the buffer of 1000 samples the frame count is \<open>-2\<close>, and the feature extractor does
  not succeed with an empty feature set, it ends in a \<open>RangeError\<close>.
\<close>

theorem short_waveform_range_error:
  "numFrames 1000 = - 2 \<and> extractMFCCFeatures shortBuffer = Inl RangeError"
  by (simp add: numFrames_div extractMFCCFeatures_short shortBuffer_def)

subsection \<open>The empty waveform\<close>





subsection \<open>One second of silence\<close>

lemma fold_fixed_on: "(\<And>n. n \<in> set ns \<Longrightarrow> step n z = z) \<Longrightarrow> fold step ns z = z"
  by (induction ns) simp_all

lemma map_upt_const: "(\<And>i. i < n \<Longrightarrow> f i = c) \<Longrightarrow> map f [0..<n] = replicate n c"
  by (induction n) (simp_all add: replicate_append_same)

lemma readAt_replicate: "i < n \<Longrightarrow> readAt (replicate n v) i = v"
  by (simp add: readAt_def)

lemma calculateRMS_zeros:
  assumes "0 < n"
  shows "calculateRMS (replicate n (Val 0)) = Val 0"
proof -
  have "fold (\<lambda>i sum. nadd sum (nmul (readAt (replicate n (Val 0)) i)
                                    (readAt (replicate n (Val 0)) i)))
          [0..<n] (Val 0) = Val 0"
    by (rule fold_fixed_on) (simp add: readAt_replicate)
  then show ?thesis using assms by (simp add: calculateRMS_def)
qed

lemma calculateZeroCrossingRate_zeros:
  assumes "0 < n"
  shows "calculateZeroCrossingRate (replicate n (Val 0)) = Val 0"
proof -
  have "fold (\<lambda>i crossings.
                if nge (readAt (replicate n (Val 0)) i) 0 \<noteq>
                   nge (readAt (replicate n (Val 0)) (i - 1)) 0
                then crossings + 1 else crossings) [1..<n] (0::nat) = 0"
    by (rule fold_fixed_on) (auto simp: readAt_def)
  then show ?thesis using assms by (simp add: calculateZeroCrossingRate_def)
qed

lemma dft_zeros: "dftRe (replicate n 0) k = 0" "dftIm (replicate n 0) k = 0"
  by (simp_all add: dftRe_def dftIm_def)

lemma zeros_map_Val: "replicate n (Val 0) = map Val (replicate n 0)"
  by simp

lemma calculateSpectralCentroid_zeros:
  assumes "0 < n"
  shows "calculateSpectralCentroid (replicate n (Val 0)) (Val sr) = Val 0"
proof -
  have "replicate n (0::real) \<noteq> []" using assms by simp
  from centroidSums_Val[OF this, of sr] show ?thesis
    unfolding calculateSpectralCentroid_def Let_def zeros_map_Val
    by (simp add: dftMag_def dft_zeros)
qed

lemma preEmphasis_zeros: "preEmphasis (replicate n (Val 0)) (Val a) = replicate n (Val 0)"
  unfolding preEmphasis_def length_replicate
  by (rule map_upt_const) (simp add: readAt_replicate)

lemma applyHammingWindow_zeros:
  assumes "n \<noteq> 1"
  shows "applyHammingWindow (replicate n (Val 0)) = replicate n (Val 0)"
  unfolding applyHammingWindow_def Let_def length_replicate
  by (rule map_upt_const) (use assms in \<open>simp add: readAt_replicate\<close>)

lemma applyHammingWindow_silence:
  "applyHammingWindow (replicate 2048 (Val 0)) = replicate 2048 (Val 0)"
  by (rule applyHammingWindow_zeros) simp

lemma powerSpectrumOf_zeros:
  "powerSpectrumOf (computeFFT (replicate n (Val 0))) = replicate n (Val 0)"
proof -
  have r: "readAt (computeFFT (replicate n (Val 0))) (i * 2) = Val 0"
    "readAt (computeFFT (replicate n (Val 0))) (i * 2 + 1) = Val 0" if "i < n" for i
    using readAt_fft(1,2)[of i "replicate n 0"] that by (simp_all add: dft_zeros)
  have l: "length (computeFFT (replicate n (Val 0))) div 2 = n"
    unfolding zeros_map_Val length_computeFFT_Val by simp
  show ?thesis
    unfolding powerSpectrumOf_def Let_def l
    by (rule map_upt_const) (simp only: r nmul.simps nadd.simps, simp)
qed

lemma computeMFCC_zeros: "computeMFCC (replicate 2048 (Val 0)) rate = silentCoefficients"
  by (simp only: computeMFCC_def Let_def powerSpectrumOf_zeros silentCoefficients_def)

lemma length_silentCoefficients: "length silentCoefficients = 13"
  by (simp add: silentCoefficients_def)

lemma readAt_silentCoefficients:
  "map (\<lambda>i. readAt silentCoefficients i) [0..<13] = silentCoefficients"
  by (rule nth_equalityI) (simp_all add: length_silentCoefficients readAt_def)

lemma silence_frame:
  assumes "frame < 83"
  shows "take 2048 (drop (frame * 512) (replicate 44100 (Val 0))) = replicate 2048 (Val 0)"
proof -
  have "min (44100 - frame * 512) 2048 = (2048::nat)" using assms by simp
  then show ?thesis by (simp add: min.commute)
qed

lemma numFrames_silence: "numFrames 44100 = 83"
  by (simp add: numFrames_div)

lemma silence_frame_coefficients:
  assumes "frame < 83"
  shows "map (\<lambda>i. readAt (computeMFCC (applyHammingWindow
            (take 2048 (drop (frame * 512) (replicate 44100 (Val 0))))) (Val 44100)) i)
           [0..<13]
         = silentCoefficients"
  by (simp only: silence_frame[OF assms] applyHammingWindow_silence computeMFCC_zeros
      readAt_silentCoefficients)

lemma extractMFCCFeatures_silence: "extractMFCCFeatures silence = Inr silenceFeatures"
proof -
  have m: "map (\<lambda>frame. map (\<lambda>i. readAt (computeMFCC (applyHammingWindow
            (take 2048 (drop (frame * 512) (replicate 44100 (Val 0))))) (Val 44100)) i)
            [0..<13])
          [0..<83]
        = map (\<lambda>frame. silentCoefficients) [0..<83]"
  proof (rule map_cong[OF refl])
    fix frame :: nat
    assume "frame \<in> set [0..<83]"
    then have "frame < 83" by simp
    then show "map (\<lambda>i. readAt (computeMFCC (applyHammingWindow
            (take 2048 (drop (frame * 512) (replicate 44100 (Val 0))))) (Val 44100)) i)
            [0..<13]
         = silentCoefficients"
      by (rule silence_frame_coefficients)
  qed
  show ?thesis
    by (simp only: extractMFCCFeatures_def Let_def silence_def AudioBuffer.select_convs
        preEmphasis_zeros length_replicate numFrames_silence nat_numeral m silenceFeatures_def,
        simp)
qed

text \<open>
  The coefficient at index 2 of a silent frame: a constant times a sum of cosines
  that cancel in pairs, \<open>j\<close> against \<open>j + M / 2\<close>.
\<close>

lemma mfcc_fold_zeros:
  assumes "m \<le> M" "M \<noteq> 0"
  shows "fold (\<lambda>j sum.
             nadd sum
               (nmul (nlog (nadd (readAt (replicate M (Val 0)) j) (Val (1 / 10 ^ 10))))
                  (ncos (ndiv (Val (pi * real i * (real j + 0.5)))
                           (Val (real (length (replicate M (Val 0)))))))))
       [0..<m] (Val s)
     = Val (s + (\<Sum>j<m. ln (1 / 10 ^ 10) * cos (pi * real i * (real j + 0.5) / real M)))"
  using assms
proof (induction m)
  case 0
  then show ?case by simp
next
  case (Suc m)
  then show ?case by (simp add: readAt_replicate add.assoc)
qed

lemma mfccCoefficient_zeros:
  assumes "M \<noteq> 0"
  shows "mfccCoefficient (replicate M (Val 0)) i =
    Val (\<Sum>j<M. ln (1 / 10 ^ 10) * cos (pi * real i * (real j + 0.5) / real M))"
proof -
  have l: "[0..<length (replicate M (Val 0))] = [0..<M]" by simp
  show ?thesis
    unfolding mfccCoefficient_def l
    using mfcc_fold_zeros[of M M i 0] assms by simp
qed

lemma cos_sum_zero:
  assumes "0 < m"
  shows "(\<Sum>j<2 * m. cos (pi * real (2::nat) * (real j + 0.5) / real (2 * m))) = 0"
proof -
  let ?f = "\<lambda>j. cos (pi * real (2::nat) * (real j + 0.5) / real (2 * m))"
  have shift: "?f (j + m) = - ?f j" for j
  proof -
    have "pi * real (2::nat) * (real (j + m) + 0.5) / real (2 * m)
        = pi * real (2::nat) * (real j + 0.5) / real (2 * m) + pi"
      using assms by (simp add: field_simps)
    then show ?thesis by (simp only: cos_periodic_pi)
  qed
  have "m + m = 2 * m" by arith
  then have ivl: "{0 + m..<m + m} = {m..<2 * m}" by (simp only: add_0)
  have "sum ?f {0..<2 * m} = sum ?f {0..<m} + sum ?f {m..<2 * m}"
    by (rule sum.atLeastLessThan_concat[symmetric]) simp_all
  also have "sum ?f {m..<2 * m} = sum (\<lambda>j. ?f (j + m)) {0..<m}"
    using sum.shift_bounds_nat_ivl[of ?f 0 m m] by (simp only: ivl)
  also have "\<dots> = - sum ?f {0..<m}"
    by (simp only: shift sum_negf)
  finally have "sum ?f {0..<2 * m} = 0" by simp
  then show ?thesis by (simp only: atLeast0LessThan)
qed

lemma mfccCoefficient_zeros_2:
  assumes "0 < m"
  shows "mfccCoefficient (replicate (2 * m) (Val 0)) 2 = Val 0"
proof -
  have "2 * m \<noteq> 0" using assms by simp
  then have "mfccCoefficient (replicate (2 * m) (Val 0)) 2 =
    Val (\<Sum>j<2 * m. ln (1 / 10 ^ 10) *
                     cos (pi * real (2::nat) * (real j + 0.5) / real (2 * m)))"
    by (rule mfccCoefficient_zeros)
  also have "(\<Sum>j<2 * m. ln (1 / 10 ^ 10) *
                         cos (pi * real (2::nat) * (real j + 0.5) / real (2 * m)))
        = ln (1 / 10 ^ 10) *
          (\<Sum>j<2 * m. cos (pi * real (2::nat) * (real j + 0.5) / real (2 * m)))"
    by (simp only: sum_distrib_left)
  also have "\<dots> = 0" by (simp only: cos_sum_zero[OF assms] mult_zero_right)
  finally show ?thesis .
qed

lemma silentCoefficients_2: "silentCoefficients ! 2 = Val 0"
proof -
  have "map (\<lambda>i. mfccCoefficient (replicate 2048 (Val 0)) i) [0..<13] ! 2
      = mfccCoefficient (replicate 2048 (Val 0)) (0 + 2)"
    by (rule nth_map_upt) simp
  then have "silentCoefficients ! 2 = mfccCoefficient (replicate 2048 (Val 0)) 2"
    by (simp only: silentCoefficients_def add_0)
  also have "\<dots> = Val 0"
    using mfccCoefficient_zeros_2[of 1024] by simp
  finally show ?thesis .
qed

lemma length_concat_frames:
  "(\<And>k. k < n \<Longrightarrow> length (f k) = 13) \<Longrightarrow> length (concat (map f [0..<n])) = 13 * n"
  by (induction n) simp_all

lemma nth_concat_frames:
  assumes "\<And>k. k < n \<Longrightarrow> length (f k) = 13" "k < n" "j < 13"
  shows "concat (map f [0..<n]) ! (13 * k + j) = f k ! j"
  using assms
proof (induction n)
  case 0
  then show ?case by simp
next
  case (Suc n)
  have len: "length (concat (map f [0..<n])) = 13 * n"
    using Suc.prems(1) by (intro length_concat_frames) simp
  show ?case
  proof (cases "k < n")
    case True
    then have "13 * k + j < 13 * n" using Suc.prems(3) by simp
    then show ?thesis
      using Suc.IH[OF _ True Suc.prems(3)] Suc.prems(1) by (simp add: nth_append len)
  next
    case False
    then have "k = n" using Suc.prems(2) by simp
    then show ?thesis by (simp add: nth_append len)
  qed
qed

lemma length_silenceFeatures: "length silenceFeatures = 13 * 83"
  unfolding silenceFeatures_def
  by (rule length_concat_frames) (rule length_silentCoefficients)

lemma matchingFrames_silence: "matchingFrames silenceFeatures 83 = 0"
proof -
  have "silenceFeatures ! (13 * k + 2) = Val 0" if "k < 83" for k
    unfolding silenceFeatures_def
    using nth_concat_frames[where f = "\<lambda>frame. silentCoefficients" and n = 83 and k = k
        and j = 2] that
    by (simp add: length_silentCoefficients silentCoefficients_2)
  then have "\<not> (ngt (silenceFeatures ! (13 * k + 2)) 0.5 \<and>
                nlt (silenceFeatures ! (13 * k + 3)) (-0.3))"
    if "k \<in> set [0..<83]" for k
    using that by simp
  then have "filter (\<lambda>k. ngt (silenceFeatures ! (13 * k + 2)) 0.5 \<and>
                         nlt (silenceFeatures ! (13 * k + 3)) (-0.3)) [0..<83] = []"
    by (simp only: filter_empty_conv) blast
  then show ?thesis by (simp only: matchingFrames_def list.size)
qed

lemma detectWheezing_silence: "\<not> detectWheezing silenceFeatures"
  using detectWheezing_count[OF length_silenceFeatures] by (simp add: matchingFrames_silence)

lemma analyze_silence: "analyzeCoughCharacteristics silence now = Inr (silenceRecord now)"
  by (simp only: analyzeCoughCharacteristics_def Let_def extractMFCCFeatures_silence,
      simp add: silenceRecord_def silence_def calculateRMS_zeros calculateZeroCrossingRate_zeros
        calculateSpectralCentroid_zeros)

lemma silenceRecord_scores:
  "covidScore (silenceRecord now) = 0.5" "asthmaScore (silenceRecord now) = 0.3"
  "bronchitisScore (silenceRecord now) = 0.5" "pneumoniaScore (silenceRecord now) = 0.5"
  by (simp_all add: covidScore_def asthmaScore_def bronchitisScore_def pneumoniaScore_def
      silenceRecord_def detectWheezing_silence)

text \<open>
  Claim C5, as stated, fails: the raw scores are not zero apart from the rules on the
  duration. The only rule of Asthma on the duration, \<open>duration > 1.0\<close>, does not fire at
  a duration of \<open>1.0\<close>, and the raw score of Asthma is \<open>0.3\<close>: the rule
  \<open>spectralCentroid < 1500\<close> fires on the centroid \<open>0\<close>.
\<close>

theorem silence_asthma_score_not_zero:
  "analyzeCoughCharacteristics silence (Val 0) = Inr (silenceRecord (Val 0)) \<and>
   \<not> ngt (duration (silenceRecord (Val 0))) 1.0 \<and>
   asthmaScore (silenceRecord (Val 0)) = 0.3"
  by (simp add: analyze_silence silenceRecord_scores) (simp add: silenceRecord_def)

text \<open>
  Claim C5, amended. For one second of silence at 44100 Hz the pipeline returns the
  record \<open>silenceRecord\<close>: duration \<open>1\<close>, RMS \<open>0\<close>, zero-crossing rate \<open>0\<close>, spectral
  centroid \<open>0\<close>, and a feature set on which the wheeze heuristic does not fire. The
  threshold rules on the zero statistics fire as well as those on the duration: the raw
  scores are \<open>0.5\<close> for COVID-19, \<open>0.3\<close> for Asthma, \<open>0.5\<close> for Bronchitis and \<open>0.5\<close> for
  Pneumonia. The dominant condition is COVID-19, the first of the three tied at \<open>0.5\<close>,
  and the probabilities sum to \<open>100\<close>.
\<close>

theorem silence_end_to_end:
  "analyzeCoughCharacteristics silence now = Inr (silenceRecord now) \<and>
   \<not> detectWheezing (mfccFeatures (silenceRecord now)) \<and>
   covidScore (silenceRecord now) = 0.5 \<and> asthmaScore (silenceRecord now) = 0.3 \<and>
   bronchitisScore (silenceRecord now) = 0.5 \<and> pneumoniaScore (silenceRecord now) = 0.5 \<and>
   map name (conditions (predict (silenceRecord now) t)) =
     [''COVID-19'', ''Bronchitis'', ''Pneumonia'', ''Asthma''] \<and>
   dominantCondition (predict (silenceRecord now) t) = ''COVID-19'' \<and>
   sum_list (map probability (conditions (predict (silenceRecord now) t))) = 100"
proof -
  have w: "\<not> detectWheezing (mfccFeatures (silenceRecord now))"
    using detectWheezing_silence by (simp add: silenceRecord_def)
  have p: "map name (conditions (predict (silenceRecord now) t)) =
     [''COVID-19'', ''Bronchitis'', ''Pneumonia'', ''Asthma''] \<and>
   dominantCondition (predict (silenceRecord now) t) = ''COVID-19'' \<and>
   sum_list (map probability (conditions (predict (silenceRecord now) t))) = 100"
    by (simp add: predict_def pushedConditions_def sortConditions_def Let_def
        silenceRecord_scores)
  show ?thesis using analyze_silence w silenceRecord_scores p by simp
qed

subsection \<open>The spectral centroid with overflow\<close>

lemma limits: "(2::real) ^ 1000 < dblLimit" "f32Limit < 2 ^ 128" "0 < f32Limit" "0 < dblLimit"
  by (simp_all add: dblLimit_def f32Limit_def)

lemma toDouble_Fin: "\<bar>v\<bar> \<le> 2 ^ 1000 \<Longrightarrow> toDouble v = Fin v"
  using limits(1) by (auto simp: toDouble_def)

lemma toFloat32_Fin: "\<bar>v\<bar> < f32Limit \<Longrightarrow> toFloat32 (Fin v) = Fin v"
  by auto

lemma xmul_Fin: "\<bar>x * y\<bar> \<le> 2 ^ 1000 \<Longrightarrow> xmul (Fin x) (Fin y) = Fin (x * y)"
  by (simp add: toDouble_Fin)

lemma xadd_Fin: "\<bar>x + y\<bar> \<le> 2 ^ 1000 \<Longrightarrow> xadd (Fin x) (Fin y) = Fin (x + y)"
  by (simp add: toDouble_Fin)

lemma xdiv_Fin: "y \<noteq> 0 \<Longrightarrow> \<bar>x / y\<bar> \<le> 2 ^ 1000 \<Longrightarrow> xdiv (Fin x) (Fin y) = Fin (x / y)"
  by (simp add: toDouble_Fin)

lemma abs_prod_le:
  fixes a b :: real
  shows "\<bar>a\<bar> \<le> A \<Longrightarrow> \<bar>b\<bar> \<le> B \<Longrightarrow> \<bar>a * b\<bar> \<le> A * B"
proof -
  assume a: "\<bar>a\<bar> \<le> A" and b: "\<bar>b\<bar> \<le> B"
  have "0 \<le> A" using a by (rule order_trans[OF abs_ge_zero])
  then have "\<bar>a\<bar> * \<bar>b\<bar> \<le> A * B" using a b by (intro mult_mono) simp_all
  then show ?thesis by (simp add: abs_mult)
qed

lemma abs_div_le:
  fixes a c :: real
  shows "1 \<le> c \<Longrightarrow> \<bar>a / c\<bar> \<le> \<bar>a\<bar>"
proof -
  assume c: "1 \<le> c"
  then have "\<bar>a\<bar> / c \<le> \<bar>a\<bar> / 1" by (intro divide_left_mono) simp_all
  then show ?thesis using c by simp
qed

lemma angle_f32:
  assumes "k < N" "n < N" "real N < 2 ^ 53"
  shows "xdiv (xmul (xmul (xmul (Fin (-2)) (Fin pi)) (Fin (real k))) (Fin (real n)))
           (Fin (real N))
         = Fin (-2 * pi * real k * real n / real N)"
proof -
  have kb: "\<bar>real k\<bar> \<le> 2 ^ 53" and nb: "\<bar>real n\<bar> \<le> 2 ^ 53" using assms by simp_all
  have N1: "1 \<le> real N" and N0: "real N \<noteq> 0" using assms(1) by simp_all
  have pb: "\<bar>pi\<bar> \<le> 4" using pi_less_4 pi_gt_zero by simp
  have b1: "\<bar>(-2) * pi\<bar> \<le> 2 * 4" by (rule abs_prod_le[OF _ pb]) simp
  have b2: "\<bar>(-2) * pi * real k\<bar> \<le> 2 * 4 * 2 ^ 53" by (rule abs_prod_le[OF b1 kb])
  have b3: "\<bar>(-2) * pi * real k * real n\<bar> \<le> 2 * 4 * 2 ^ 53 * 2 ^ 53"
    by (rule abs_prod_le[OF b2 nb])
  have b4: "\<bar>(-2) * pi * real k * real n / real N\<bar> \<le> 2 * 4 * 2 ^ 53 * 2 ^ 53"
    using abs_div_le[OF N1, of "(-2) * pi * real k * real n"] b3 by (rule order_trans)
  have a1: "xmul (Fin (-2)) (Fin pi) = Fin ((-2) * pi)"
    by (rule xmul_Fin) (rule order_trans[OF b1], simp)
  have a2: "xmul (Fin ((-2) * pi)) (Fin (real k)) = Fin ((-2) * pi * real k)"
    by (rule xmul_Fin) (rule order_trans[OF b2], simp)
  have a3: "xmul (Fin ((-2) * pi * real k)) (Fin (real n)) = Fin ((-2) * pi * real k * real n)"
    by (rule xmul_Fin) (rule order_trans[OF b3], simp)
  have a4: "xdiv (Fin ((-2) * pi * real k * real n)) (Fin (real N))
      = Fin ((-2) * pi * real k * real n / real N)"
    by (rule xdiv_Fin[OF N0]) (rule order_trans[OF b4], simp)
  show ?thesis by (simp only: a1 a2 a3 a4)
qed

lemma xreadAt_map_Fin: "i < length xs \<Longrightarrow> xreadAt (map Fin xs) i = Fin (xs ! i)"
  by (simp add: xreadAt_def)

lemma sum_abs_bound:
  fixes f :: "nat \<Rightarrow> real"
  assumes "\<And>n. n < m \<Longrightarrow> \<bar>f n\<bar> \<le> B"
  shows "\<bar>\<Sum>n<m. f n\<bar> \<le> real m * B"
proof -
  have "\<bar>\<Sum>n<m. f n\<bar> \<le> (\<Sum>n<m. \<bar>f n\<bar>)" by (rule sum_abs)
  also have "\<dots> \<le> real (card {..<m}) * B"
    by (rule sum_bounded_above) (simp add: assms)
  finally show ?thesis by simp
qed

lemma accumulate_Fin:
  assumes "\<bar>S\<bar> \<le> real n * B" "\<bar>t\<bar> \<le> B" "real n < 2 ^ 53" "B \<le> 2 ^ 900" "0 \<le> B"
  shows "xadd (Fin S) (Fin t) = Fin (S + t)"
proof (rule xadd_Fin)
  have "real n * B \<le> 2 ^ 53 * B" using assms(3,5) by (intro mult_right_mono) simp_all
  also have "\<dots> \<le> 2 ^ 53 * 2 ^ 900" using assms(4) by (intro mult_left_mono) simp_all
  finally have "\<bar>S\<bar> \<le> 2 ^ 53 * 2 ^ 900" using assms(1) by simp
  moreover have "\<bar>t\<bar> \<le> 2 ^ 900" using assms(2,4) by simp
  ultimately have "\<bar>S + t\<bar> \<le> 2 ^ 53 * 2 ^ 900 + 2 ^ 900"
    using abs_triangle_ineq[of S t] by linarith
  also have "\<dots> \<le> (2::real) ^ 1000" by simp
  finally show "\<bar>S + t\<bar> \<le> 2 ^ 1000" .
qed

lemma fftStep_Fin:
  assumes "k < length x" "n < length x" "real (length x) < 2 ^ 53" "\<bar>x ! n\<bar> \<le> 2 ^ 128"
    and "\<bar>S\<bar> \<le> real n * 2 ^ 128" "\<bar>T\<bar> \<le> real n * 2 ^ 128"
  shows "fftStep_f32 (map Fin x) k n (Fin S, Fin T) =
    (Fin (S + x ! n * cos (-2 * pi * real k * real n / real (length x))),
     Fin (T + x ! n * sin (-2 * pi * real k * real n / real (length x))))"
proof -
  let ?a = "-2 * pi * real k * real n / real (length x)"
  have a: "xdiv (xmul (xmul (xmul (Fin (-2)) (Fin pi)) (Fin (real k))) (Fin (real n)))
             (Fin (real (length x))) = Fin ?a"
    using assms(1,2,3) by (rule angle_f32)
  have r: "xreadAt (map Fin x) n = Fin (x ! n)" using assms(2) by (rule xreadAt_map_Fin)
  have cb: "\<bar>x ! n * cos ?a\<bar> \<le> 2 ^ 128 * 1" by (rule abs_prod_le[OF assms(4)]) simp
  have sb: "\<bar>x ! n * sin ?a\<bar> \<le> 2 ^ 128 * 1" by (rule abs_prod_le[OF assms(4)]) simp
  have p: "xmul (Fin (x ! n)) (Fin (cos ?a)) = Fin (x ! n * cos ?a)"
    by (rule xmul_Fin) (rule order_trans[OF cb], simp)
  have q: "xmul (Fin (x ! n)) (Fin (sin ?a)) = Fin (x ! n * sin ?a)"
    by (rule xmul_Fin) (rule order_trans[OF sb], simp)
  have nb: "real n < 2 ^ 53" using assms(2,3) by simp
  have s: "xadd (Fin S) (Fin (x ! n * cos ?a)) = Fin (S + x ! n * cos ?a)"
    using assms(5) cb nb by (intro accumulate_Fin[where B = "2 ^ 128"]) simp_all
  have t: "xadd (Fin T) (Fin (x ! n * sin ?a)) = Fin (T + x ! n * sin ?a)"
    using assms(6) sb nb by (intro accumulate_Fin[where B = "2 ^ 128"]) simp_all
  show ?thesis
    unfolding fftStep_f32_def Let_def length_map
    by (simp only: case_prod_conv a r xcos.simps xsin.simps p q s t)
qed

lemma fft_fold_f32:
  assumes "k < length x" "real (length x) < 2 ^ 53" "\<forall>v\<in>set x. \<bar>v\<bar> \<le> 2 ^ 128"
    and "m \<le> length x"
  shows "fold (fftStep_f32 (map Fin x) k) [0..<m] (Fin 0, Fin 0) =
    (Fin (\<Sum>n<m. x ! n * cos (-2 * pi * real k * real n / real (length x))),
     Fin (\<Sum>n<m. x ! n * sin (-2 * pi * real k * real n / real (length x))))"
  using assms(4)
proof (induction m)
  case 0
  then show ?case by simp
next
  case (Suc m)
  then have m: "m < length x" by simp
  have xb: "\<bar>x ! n\<bar> \<le> 2 ^ 128" if "n < length x" for n
    using assms(3) that by simp
  have S: "\<bar>\<Sum>n<m. x ! n * cos (-2 * pi * real k * real n / real (length x))\<bar>
      \<le> real m * 2 ^ 128"
  proof (rule sum_abs_bound)
    fix n assume "n < m"
    then have "\<bar>x ! n\<bar> \<le> 2 ^ 128" using m by (intro xb) simp
    then have "\<bar>x ! n * cos (-2 * pi * real k * real n / real (length x))\<bar> \<le> 2 ^ 128 * 1"
      by (rule abs_prod_le) simp
    then show "\<bar>x ! n * cos (-2 * pi * real k * real n / real (length x))\<bar> \<le> 2 ^ 128"
      by simp
  qed
  have T: "\<bar>\<Sum>n<m. x ! n * sin (-2 * pi * real k * real n / real (length x))\<bar>
      \<le> real m * 2 ^ 128"
  proof (rule sum_abs_bound)
    fix n assume "n < m"
    then have "\<bar>x ! n\<bar> \<le> 2 ^ 128" using m by (intro xb) simp
    then have "\<bar>x ! n * sin (-2 * pi * real k * real n / real (length x))\<bar> \<le> 2 ^ 128 * 1"
      by (rule abs_prod_le) simp
    then show "\<bar>x ! n * sin (-2 * pi * real k * real n / real (length x))\<bar> \<le> 2 ^ 128"
      by simp
  qed
  have step: "fftStep_f32 (map Fin x) k m
      (Fin (\<Sum>n<m. x ! n * cos (-2 * pi * real k * real n / real (length x))),
       Fin (\<Sum>n<m. x ! n * sin (-2 * pi * real k * real n / real (length x)))) =
      (Fin ((\<Sum>n<m. x ! n * cos (-2 * pi * real k * real n / real (length x)))
            + x ! m * cos (-2 * pi * real k * real m / real (length x))),
       Fin ((\<Sum>n<m. x ! n * sin (-2 * pi * real k * real n / real (length x)))
            + x ! m * sin (-2 * pi * real k * real m / real (length x))))"
    by (rule fftStep_Fin[OF assms(1) m assms(2) xb[OF m] S T])
  have "fold (fftStep_f32 (map Fin x) k) [0..<Suc m] (Fin 0, Fin 0) =
      fftStep_f32 (map Fin x) k m (fold (fftStep_f32 (map Fin x) k) [0..<m] (Fin 0, Fin 0))"
    by simp
  also have "\<dots> = fftStep_f32 (map Fin x) k m
      (Fin (\<Sum>n<m. x ! n * cos (-2 * pi * real k * real n / real (length x))),
       Fin (\<Sum>n<m. x ! n * sin (-2 * pi * real k * real n / real (length x))))"
    using Suc.IH m by simp
  also note step
  finally show ?case by (simp only: sum.lessThan_Suc)
qed

lemma fftSums_f32_Fin:
  assumes "k < length x" "real (length x) < 2 ^ 53" "\<forall>v\<in>set x. \<bar>v\<bar> \<le> 2 ^ 128"
  shows "fftSums_f32 (map Fin x) k = (Fin (dftRe x k), Fin (dftIm x k))"
  unfolding fftSums_f32_def length_map dftRe_def dftIm_def
  by (rule fft_fold_f32[OF assms]) simp

lemma computeFFT_f32_Fin:
  assumes "real (length x) < 2 ^ 53" "\<forall>v\<in>set x. \<bar>v\<bar> \<le> 2 ^ 128"
    and "\<forall>k<length x. \<bar>dftRe x k\<bar> < f32Limit \<and> \<bar>dftIm x k\<bar> < f32Limit"
  shows "computeFFT_f32 (map Fin x) =
    concat (map (\<lambda>k. [Fin (dftRe x k), Fin (dftIm x k)]) [0..<length x])"
proof -
  have "map (\<lambda>k. let (realSum, imagSum) = fftSums_f32 (map Fin x) k
                  in [toFloat32 realSum, toFloat32 imagSum]) [0..<length x]
      = map (\<lambda>k. [Fin (dftRe x k), Fin (dftIm x k)]) [0..<length x]"
  proof (rule map_cong[OF refl])
    fix k assume "k \<in> set [0..<length x]"
    then have k: "k < length x" by simp
    have "fftSums_f32 (map Fin x) k = (Fin (dftRe x k), Fin (dftIm x k))"
      using k assms(1,2) by (rule fftSums_f32_Fin)
    moreover have b: "\<bar>dftRe x k\<bar> < f32Limit" "\<bar>dftIm x k\<bar> < f32Limit"
      using assms(3) k by simp_all
    moreover have "toFloat32 (Fin (dftRe x k)) = Fin (dftRe x k)"
      "toFloat32 (Fin (dftIm x k)) = Fin (dftIm x k)"
      by (rule toFloat32_Fin[OF b(1)]) (rule toFloat32_Fin[OF b(2)])
    ultimately show "(let (realSum, imagSum) = fftSums_f32 (map Fin x) k
                  in [toFloat32 realSum, toFloat32 imagSum]) = [Fin (dftRe x k), Fin (dftIm x k)]"
      by (simp only: Let_def case_prod_conv)
  qed
  then show ?thesis by (simp only: computeFFT_f32_def Let_def length_map)
qed

lemma sqrt_le_succ: "0 \<le> v \<Longrightarrow> sqrt v \<le> v + 1"
proof (rule real_le_lsqrt)
  assume v: "0 \<le> v"
  show "0 \<le> v + 1" using v by simp
  have "0 \<le> v * v + v + 1" using v by simp
  then show "v \<le> (v + 1)\<^sup>2" by (simp add: power2_eq_square algebra_simps)
qed

lemma dftMag_bound:
  assumes "\<bar>dftRe x i\<bar> \<le> 2 ^ 128" "\<bar>dftIm x i\<bar> \<le> 2 ^ 128"
  shows "\<bar>dftMag x i\<bar> \<le> 2 ^ 258"
proof -
  let ?v = "dftRe x i * dftRe x i + dftIm x i * dftIm x i"
  have r: "\<bar>dftRe x i * dftRe x i\<bar> \<le> 2 ^ 128 * 2 ^ 128" by (rule abs_prod_le[OF assms(1) assms(1)])
  have i: "\<bar>dftIm x i * dftIm x i\<bar> \<le> 2 ^ 128 * 2 ^ 128" by (rule abs_prod_le[OF assms(2) assms(2)])
  have v0: "0 \<le> ?v" by simp
  have "?v \<le> 2 ^ 128 * 2 ^ 128 + 2 ^ 128 * 2 ^ 128" using r i by linarith
  then have "sqrt ?v \<le> 2 ^ 128 * 2 ^ 128 + 2 ^ 128 * 2 ^ 128 + 1"
    using sqrt_le_succ[OF v0] by linarith
  also have "\<dots> \<le> (2::real) ^ 258" by simp
  finally show ?thesis by (simp add: dftMag_def)
qed

lemma xreadAt_pairs:
  assumes "i < N"
  shows "xreadAt (concat (map (\<lambda>k. [a k, b k]) [0..<N])) (i * 2) = a i"
    and "xreadAt (concat (map (\<lambda>k. [a k, b k]) [0..<N])) (i * 2 + 1) = b i"
proof -
  have l: "i * 2 < length (concat (map (\<lambda>k. [a k, b k]) [0..<N]))"
    "i * 2 + 1 < length (concat (map (\<lambda>k. [a k, b k]) [0..<N]))"
    using assms by (simp_all add: concat_pairs_length)
  have n: "concat (map (\<lambda>k. [a k, b k]) [0..<N]) ! (2 * i) = a i"
    "concat (map (\<lambda>k. [a k, b k]) [0..<N]) ! (2 * i + 1) = b i"
    using concat_pairs_nth[OF assms, of a b] by simp_all
  show "xreadAt (concat (map (\<lambda>k. [a k, b k]) [0..<N])) (i * 2) = a i"
    using l(1) n(1) by (simp add: xreadAt_def mult.commute)
  show "xreadAt (concat (map (\<lambda>k. [a k, b k]) [0..<N])) (i * 2 + 1) = b i"
    using l(2) n(2) by (simp add: xreadAt_def mult.commute)
qed

lemma centroidStep_Fin:
  assumes i: "i < length x" and N: "real (length x) < 2 ^ 53"
    and sr: "\<bar>sr\<bar> \<le> 2 ^ 128"
    and R: "\<bar>dftRe x i\<bar> \<le> 2 ^ 128" and I: "\<bar>dftIm x i\<bar> \<le> 2 ^ 128"
    and W: "\<bar>W\<bar> \<le> real i * (2 ^ 53 * 2 ^ 128 * 2 ^ 258)" and S: "\<bar>S\<bar> \<le> real i * 2 ^ 258"
  shows "centroidStep_f32
           (concat (map (\<lambda>k. [Fin (dftRe x k), Fin (dftIm x k)]) [0..<length x]))
           (Fin sr) i (Fin W, Fin S) =
         (Fin (W + real i * sr / (2 * real (length x)) * dftMag x i), Fin (S + dftMag x i))"
proof -
  let ?fft = "concat (map (\<lambda>k. [Fin (dftRe x k), Fin (dftIm x k)]) [0..<length x])"
  let ?R = "dftRe x i" and ?I = "dftIm x i"
  let ?f = "real i * sr / (2 * real (length x))"
  have M: "length ?fft div 2 = length x" by (simp add: concat_pairs_length)
  have re: "xreadAt ?fft (i * 2) = Fin ?R" and im: "xreadAt ?fft (i * 2 + 1) = Fin ?I"
    using xreadAt_pairs[OF i, of "\<lambda>k. Fin (dftRe x k)" "\<lambda>k. Fin (dftIm x k)"] by simp_all
  have ib: "\<bar>real i\<bar> \<le> 2 ^ 53" and ilt: "real i < 2 ^ 53" using i N by simp_all
  have "Suc 0 \<le> length x" using i by linarith
  then have "1 \<le> real (length x)" by (metis One_nat_def of_nat_1 of_nat_le_iff)
  then have N1: "1 \<le> 2 * real (length x)" and N0: "2 * real (length x) \<noteq> 0"
    by linarith+
  have rr: "\<bar>?R * ?R\<bar> \<le> 2 ^ 128 * 2 ^ 128" by (rule abs_prod_le[OF R R])
  have ii: "\<bar>?I * ?I\<bar> \<le> 2 ^ 128 * 2 ^ 128" by (rule abs_prod_le[OF I I])
  have m1: "xmul (Fin ?R) (Fin ?R) = Fin (?R * ?R)"
    by (rule xmul_Fin) (rule order_trans[OF rr], simp)
  have m2: "xmul (Fin ?I) (Fin ?I) = Fin (?I * ?I)"
    by (rule xmul_Fin) (rule order_trans[OF ii], simp)
  have "\<bar>?R * ?R + ?I * ?I\<bar> \<le> 2 ^ 128 * 2 ^ 128 + 2 ^ 128 * 2 ^ 128"
    using rr ii abs_triangle_ineq[of "?R * ?R" "?I * ?I"] by linarith
  also have "\<dots> \<le> (2::real) ^ 1000" by simp
  finally have ad: "xadd (Fin (?R * ?R)) (Fin (?I * ?I)) = Fin (?R * ?R + ?I * ?I)"
    by (rule xadd_Fin)
  have sq: "xsqrt (Fin (?R * ?R + ?I * ?I)) = Fin (dftMag x i)"
    by (simp add: dftMag_def not_less)
  have mb: "\<bar>dftMag x i\<bar> \<le> 2 ^ 258" using R I by (rule dftMag_bound)
  have isr: "\<bar>real i * sr\<bar> \<le> 2 ^ 53 * 2 ^ 128" by (rule abs_prod_le[OF ib sr])
  have f1: "xmul (Fin (real i)) (Fin sr) = Fin (real i * sr)"
    by (rule xmul_Fin) (rule order_trans[OF isr], simp)
  have fb: "\<bar>?f\<bar> \<le> 2 ^ 53 * 2 ^ 128"
    using abs_div_le[OF N1, of "real i * sr"] isr by (rule order_trans)
  have f2: "xdiv (Fin (real i * sr)) (Fin (2 * real (length x))) = Fin ?f"
    by (rule xdiv_Fin[OF N0]) (rule order_trans[OF fb], simp)
  have fmb: "\<bar>?f * dftMag x i\<bar> \<le> 2 ^ 53 * 2 ^ 128 * 2 ^ 258" by (rule abs_prod_le[OF fb mb])
  have fm: "xmul (Fin ?f) (Fin (dftMag x i)) = Fin (?f * dftMag x i)"
    by (rule xmul_Fin) (rule order_trans[OF fmb], simp)
  have w: "xadd (Fin W) (Fin (?f * dftMag x i)) = Fin (W + ?f * dftMag x i)"
    using W fmb ilt by (rule accumulate_Fin) simp_all
  have s: "xadd (Fin S) (Fin (dftMag x i)) = Fin (S + dftMag x i)"
    using S mb ilt by (rule accumulate_Fin) simp_all
  show ?thesis
    unfolding centroidStep_f32_def Let_def M
    by (simp only: case_prod_conv re im m1 m2 ad sq f1 f2 fm w s)
qed

lemma centroid_fold_f32:
  assumes N: "real (length x) < 2 ^ 53" and sr: "\<bar>sr\<bar> \<le> 2 ^ 128"
    and B: "\<forall>k<length x. \<bar>dftRe x k\<bar> \<le> 2 ^ 128 \<and> \<bar>dftIm x k\<bar> \<le> 2 ^ 128"
    and m: "m \<le> length x"
  shows "fold (centroidStep_f32
                 (concat (map (\<lambda>k. [Fin (dftRe x k), Fin (dftIm x k)]) [0..<length x]))
                 (Fin sr))
           [0..<m] (Fin 0, Fin 0) =
         (Fin (\<Sum>i<m. real i * sr / (2 * real (length x)) * dftMag x i),
          Fin (\<Sum>i<m. dftMag x i))"
  using m
proof (induction m)
  case 0
  then show ?case by simp
next
  case (Suc m)
  let ?fft = "concat (map (\<lambda>k. [Fin (dftRe x k), Fin (dftIm x k)]) [0..<length x])"
  let ?g = "\<lambda>i. real i * sr / (2 * real (length x)) * dftMag x i"
  from Suc.prems have m: "m < length x" by simp
  have mb: "\<bar>dftMag x i\<bar> \<le> 2 ^ 258" if "i < length x" for i
    using B that by (intro dftMag_bound) simp_all
  have gb: "\<bar>?g i\<bar> \<le> 2 ^ 53 * 2 ^ 128 * 2 ^ 258" if "i < length x" for i
  proof -
    have ib: "\<bar>real i\<bar> \<le> 2 ^ 53" using that N by simp
    have "Suc 0 \<le> length x" using that by linarith
    then have "1 \<le> real (length x)" by (metis One_nat_def of_nat_1 of_nat_le_iff)
    then have N1: "1 \<le> 2 * real (length x)" by linarith
    have "\<bar>real i * sr\<bar> \<le> 2 ^ 53 * 2 ^ 128" by (rule abs_prod_le[OF ib sr])
    then have "\<bar>real i * sr / (2 * real (length x))\<bar> \<le> 2 ^ 53 * 2 ^ 128"
      using abs_div_le[OF N1, of "real i * sr"] by linarith
    then show ?thesis using mb[OF that] by (rule abs_prod_le)
  qed
  have W: "\<bar>\<Sum>i<m. ?g i\<bar> \<le> real m * (2 ^ 53 * 2 ^ 128 * 2 ^ 258)"
  proof (rule sum_abs_bound)
    fix i assume "i < m"
    then have "i < length x" using m by simp
    then show "\<bar>?g i\<bar> \<le> 2 ^ 53 * 2 ^ 128 * 2 ^ 258" by (rule gb)
  qed
  have S: "\<bar>\<Sum>i<m. dftMag x i\<bar> \<le> real m * 2 ^ 258"
  proof (rule sum_abs_bound)
    fix i assume "i < m"
    then have "i < length x" using m by simp
    then show "\<bar>dftMag x i\<bar> \<le> 2 ^ 258" by (rule mb)
  qed
  have R: "\<bar>dftRe x m\<bar> \<le> 2 ^ 128" and I: "\<bar>dftIm x m\<bar> \<le> 2 ^ 128" using B m by simp_all
  have "fold (centroidStep_f32 ?fft (Fin sr)) [0..<Suc m] (Fin 0, Fin 0) =
      centroidStep_f32 ?fft (Fin sr) m (fold (centroidStep_f32 ?fft (Fin sr)) [0..<m] (Fin 0, Fin 0))"
    by simp
  also have "\<dots> = centroidStep_f32 ?fft (Fin sr) m (Fin (\<Sum>i<m. ?g i), Fin (\<Sum>i<m. dftMag x i))"
    using Suc.IH m by simp
  also have "\<dots> = (Fin ((\<Sum>i<m. ?g i) + ?g m), Fin ((\<Sum>i<m. dftMag x i) + dftMag x m))"
    by (rule centroidStep_Fin[OF m N sr R I W S])
  finally show ?case by (simp only: sum.lessThan_Suc)
qed

lemma centroid_f32_finite:
  assumes "x \<noteq> []" "real (length x) < 2 ^ 53" "\<forall>v\<in>set x. \<bar>v\<bar> < f32Limit"
    and "\<forall>k<length x. \<bar>dftRe x k\<bar> < f32Limit \<and> \<bar>dftIm x k\<bar> < f32Limit"
    and "0 < sr" "sr < f32Limit"
  shows "\<exists>c. calculateSpectralCentroid_f32 (map Fin x) (Fin sr) = Fin c \<and> 0 \<le> c \<and> c < sr / 2"
proof -
  let ?W = "\<Sum>i<length x. real i * sr / (2 * real (length x)) * dftMag x i"
  let ?S = "\<Sum>i<length x. dftMag x i"
  let ?F = "(real (length x) - 1) * sr / (2 * real (length x))"
  have xb: "\<forall>v\<in>set x. \<bar>v\<bar> \<le> 2 ^ 128" using assms(3) limits(2) by fastforce
  have bb: "\<forall>k<length x. \<bar>dftRe x k\<bar> \<le> 2 ^ 128 \<and> \<bar>dftIm x k\<bar> \<le> 2 ^ 128"
    using assms(4) limits(2) by fastforce
  have srb: "\<bar>sr\<bar> \<le> 2 ^ 128" using assms(5,6) limits(2) by simp
  have fft: "computeFFT_f32 (map Fin x) =
      concat (map (\<lambda>k. [Fin (dftRe x k), Fin (dftIm x k)]) [0..<length x])"
    using assms(2) xb assms(4) by (rule computeFFT_f32_Fin)
  have sums: "centroidSums_f32 (computeFFT_f32 (map Fin x)) (Fin sr) = (Fin ?W, Fin ?S)"
    unfolding centroidSums_f32_def fft
    using centroid_fold_f32[OF assms(2) srb bb, of "length x"]
    by (simp add: concat_pairs_length)
  have n: "0 < real (length x)" using assms(1) by simp
  have F: "?F < sr / 2" using n assms(5) by (simp add: field_simps)
  show ?thesis
  proof (cases "0 < ?S")
    case True
    have lo: "0 \<le> ?W / ?S" using weighted_nonneg[OF assms(5)] True by simp
    have "?W / ?S \<le> ?F"
      using weighted_bound[OF assms(5) assms(1)] True by (simp add: pos_divide_le_eq)
    then have hi: "?W / ?S < sr / 2" using F by (rule le_less_trans)
    have "sr \<le> 2 ^ 128" using srb by linarith
    then have "?W / ?S \<le> 2 ^ 128" using hi assms(5) by linarith
    then have "\<bar>?W / ?S\<bar> \<le> 2 ^ 128" using lo by (simp only: abs_of_nonneg)
    also have "\<dots> \<le> (2::real) ^ 1000" by simp
    finally have q: "\<bar>?W / ?S\<bar> \<le> 2 ^ 1000" .
    have S0: "?S \<noteq> 0" using True by linarith
    have "xdiv (Fin ?W) (Fin ?S) = Fin (?W / ?S)"
      using S0 q by (rule xdiv_Fin)
    then have c: "calculateSpectralCentroid_f32 (map Fin x) (Fin sr) = Fin (?W / ?S)"
      using True by (simp only: calculateSpectralCentroid_f32_def Let_def sums case_prod_conv
          xgt.simps if_True)
    from c lo hi show ?thesis by blast
  next
    case False
    then have "calculateSpectralCentroid_f32 (map Fin x) (Fin sr) = Fin 0"
      by (simp only: calculateSpectralCentroid_f32_def Let_def sums case_prod_conv
          xgt.simps if_False)
    then show ?thesis using assms(5) by simp
  qed
qed

text \<open>
  Where nothing overflows, the two models of the centroid agree; so they do on the empty
  waveform and on the second of silence of the statements above.
\<close>

lemma centroid_models_agree:
  assumes "x \<noteq> []" "real (length x) < 2 ^ 53" "\<forall>v\<in>set x. \<bar>v\<bar> < f32Limit"
    and "\<forall>k<length x. \<bar>dftRe x k\<bar> < f32Limit \<and> \<bar>dftIm x k\<bar> < f32Limit"
    and "0 < sr" "sr < f32Limit"
  shows "calculateSpectralCentroid_f32 (map Fin x) (Fin sr) = Fin c \<longleftrightarrow>
         calculateSpectralCentroid (map Val x) (Val sr) = Val c"
proof -
  let ?W = "\<Sum>i<length x. real i * sr / (2 * real (length x)) * dftMag x i"
  let ?S = "\<Sum>i<length x. dftMag x i"
  have xb: "\<forall>v\<in>set x. \<bar>v\<bar> \<le> 2 ^ 128" using assms(3) limits(2) by fastforce
  have bb: "\<forall>k<length x. \<bar>dftRe x k\<bar> \<le> 2 ^ 128 \<and> \<bar>dftIm x k\<bar> \<le> 2 ^ 128"
    using assms(4) limits(2) by fastforce
  have srb: "\<bar>sr\<bar> \<le> 2 ^ 128" using assms(5,6) limits(2) by simp
  have fft: "computeFFT_f32 (map Fin x) =
      concat (map (\<lambda>k. [Fin (dftRe x k), Fin (dftIm x k)]) [0..<length x])"
    using assms(2) xb assms(4) by (rule computeFFT_f32_Fin)
  have sums: "centroidSums_f32 (computeFFT_f32 (map Fin x)) (Fin sr) = (Fin ?W, Fin ?S)"
    unfolding centroidSums_f32_def fft
    using centroid_fold_f32[OF assms(2) srb bb, of "length x"]
    by (simp add: concat_pairs_length)
  have ideal: "calculateSpectralCentroid (map Val x) (Val sr) =
      (if 0 < ?S then Val (?W / ?S) else Val 0)"
    by (simp add: calculateSpectralCentroid_def centroidSums_Val[OF assms(1)])
  obtain d where d: "calculateSpectralCentroid_f32 (map Fin x) (Fin sr) = Fin d" "0 \<le> d" "d < sr / 2"
    using centroid_f32_finite[OF assms] by blast
  have real: "calculateSpectralCentroid_f32 (map Fin x) (Fin sr) =
      (if 0 < ?S then Fin (?W / ?S) else Fin 0)"
  proof (cases "0 < ?S")
    case True
    have "\<bar>d\<bar> \<le> 2 ^ 128" using d(2,3) srb by simp
    also have "\<dots> \<le> (2::real) ^ 1000" by simp
    finally have q: "\<bar>d\<bar> \<le> 2 ^ 1000" .
    have S0: "?S \<noteq> 0" using True by linarith
    have c: "calculateSpectralCentroid_f32 (map Fin x) (Fin sr) = xdiv (Fin ?W) (Fin ?S)"
      using True by (simp only: calculateSpectralCentroid_f32_def Let_def sums case_prod_conv
          xgt.simps if_True)
    then have "xdiv (Fin ?W) (Fin ?S) = Fin d" using d(1) by simp
    then have "toDouble (?W / ?S) = Fin d" using S0 by simp
    then have "?W / ?S = d" by (simp add: toDouble_def split: if_splits)
    then show ?thesis using d(1) True by simp
  next
    case False
    then show ?thesis
      by (simp only: calculateSpectralCentroid_f32_def Let_def sums case_prod_conv
          xgt.simps if_False)
  qed
  show ?thesis unfolding ideal real by simp
qed

lemma centroid_f32_empty: "calculateSpectralCentroid_f32 [] rate = Fin 0"
  by (simp add: calculateSpectralCentroid_f32_def computeFFT_f32_def centroidSums_f32_def)

lemma centroid_f32_silence:
  "calculateSpectralCentroid_f32 (replicate 44100 (Fin 0)) (Fin 44100) = Fin 0"
proof -
  have l: "(44100::real) < f32Limit" by (simp add: f32Limit_def)
  have z: "replicate 44100 (Fin 0) = map Fin (replicate 44100 0)" by simp
  have "calculateSpectralCentroid_f32 (map Fin (replicate 44100 0)) (Fin 44100) = Fin 0 \<longleftrightarrow>
        calculateSpectralCentroid (map Val (replicate 44100 0)) (Val 44100) = Val 0"
    using limits(3) l by (intro centroid_models_agree) (simp_all add: dft_zeros)
  then show ?thesis
    unfolding z using calculateSpectralCentroid_zeros[of 44100 44100]
    by (simp only: zeros_map_Val)
qed

lemma xadd_XNaN_right: "xadd r XNaN = XNaN" by (cases r) simp_all
lemma xmul_XNaN_right: "xmul r XNaN = XNaN" by (cases r) simp_all

lemma fftSums_f32_XNaN:
  assumes "p < length signal" "signal ! p = XNaN"
  shows "fftSums_f32 signal k = (XNaN, XNaN)"
  unfolding fftSums_f32_def
proof (rule fold_absorb[where p = p])
  fix acc :: "xnumber \<times> xnumber"
  show "fftStep_f32 signal k p acc = (XNaN, XNaN)"
    using assms by (cases acc) (simp add: fftStep_f32_def xreadAt_def xadd_XNaN_right)
next
  fix n
  show "fftStep_f32 signal k n (XNaN, XNaN) = (XNaN, XNaN)"
    by (simp add: fftStep_f32_def)
next
  show "p \<in> set [0..<length signal]" using assms(1) by simp
qed

lemma computeFFT_f32_XNaN:
  assumes "p < length signal" "signal ! p = XNaN"
  shows "computeFFT_f32 signal = concat (map (\<lambda>k. [XNaN, XNaN]) [0..<length signal])"
  by (simp add: computeFFT_f32_def fftSums_f32_XNaN[OF assms])

lemma xreadAt_XNaN_pairs: "xreadAt (concat (map (\<lambda>k. [XNaN, XNaN]) [0..<N])) j = XNaN"
proof (cases "j < 2 * N")
  case False
  then show ?thesis by (simp add: xreadAt_def concat_pairs_length)
next
  case True
  then have k: "j div 2 < N" by simp
  show ?thesis
  proof (cases "even j")
    case True
    then have "j = 2 * (j div 2)" by simp
    then show ?thesis
      using concat_pairs_nth[OF k, where a = "\<lambda>k. XNaN" and b = "\<lambda>k. XNaN"] \<open>j < 2 * N\<close>
      by (metis xreadAt_def)
  next
    case False
    then have "j = 2 * (j div 2) + 1" by presburger
    then show ?thesis
      using concat_pairs_nth[OF k, where a = "\<lambda>k. XNaN" and b = "\<lambda>k. XNaN"] \<open>j < 2 * N\<close>
      by (metis xreadAt_def)
  qed
qed

lemma centroidStep_XNaN:
  "centroidStep_f32 (concat (map (\<lambda>k. [XNaN, XNaN]) [0..<N])) rate i acc = (XNaN, XNaN)"
  by (cases acc)
     (simp add: centroidStep_f32_def xreadAt_XNaN_pairs xadd_XNaN_right xmul_XNaN_right)

lemma centroid_f32_XNaN_sample:
  assumes "p < length signal" "signal ! p = XNaN"
  shows "calculateSpectralCentroid_f32 signal rate = Fin 0"
proof -
  have "0 < length signal" using assms(1) by (cases signal) simp_all
  then have "0 \<in> set [0..<length (concat (map (\<lambda>k. [XNaN, XNaN]) [0..<length signal])) div 2]"
    by (simp add: concat_pairs_length)
  then have "centroidSums_f32 (concat (map (\<lambda>k. [XNaN, XNaN]) [0..<length signal])) rate
      = (XNaN, XNaN)"
    unfolding centroidSums_f32_def
    by (intro fold_absorb[where p = 0] centroidStep_XNaN)
  then show ?thesis
    by (simp add: calculateSpectralCentroid_f32_def computeFFT_f32_XNaN[OF assms])
qed

lemma samples_Fin_or_XNaN:
  assumes "\<forall>s\<in>set signal. s = XNaN \<or> (\<exists>v. s = Fin v \<and> \<bar>v\<bar> < f32Limit)"
  shows "(\<exists>x. signal = map Fin x \<and> (\<forall>v\<in>set x. \<bar>v\<bar> < f32Limit)) \<or>
         (\<exists>p<length signal. signal ! p = XNaN)"
  using assms
proof (induction signal)
  case Nil
  then show ?case by simp
next
  case (Cons s signal)
  from Cons.prems have hd: "s = XNaN \<or> (\<exists>v. s = Fin v \<and> \<bar>v\<bar> < f32Limit)"
    and tl: "\<forall>s\<in>set signal. s = XNaN \<or> (\<exists>v. s = Fin v \<and> \<bar>v\<bar> < f32Limit)"
    by simp_all
  from hd show ?case
  proof
    assume "s = XNaN"
    then have "0 < length (s # signal) \<and> (s # signal) ! 0 = XNaN" by simp
    then show ?thesis by blast
  next
    assume "\<exists>v. s = Fin v \<and> \<bar>v\<bar> < f32Limit"
    then obtain v where v: "s = Fin v" "\<bar>v\<bar> < f32Limit" by blast
    from Cons.IH[OF tl] show ?thesis
    proof
      assume "\<exists>x. signal = map Fin x \<and> (\<forall>v\<in>set x. \<bar>v\<bar> < f32Limit)"
      then obtain x where "signal = map Fin x" "\<forall>v\<in>set x. \<bar>v\<bar> < f32Limit" by blast
      then have "s # signal = map Fin (v # x) \<and> (\<forall>u\<in>set (v # x). \<bar>u\<bar> < f32Limit)"
        using v by simp
      then show ?thesis by (intro disjI1 exI[of _ "v # x"])
    next
      assume "\<exists>p<length signal. signal ! p = XNaN"
      then obtain p where "p < length signal" "signal ! p = XNaN" by blast
      then have "Suc p < length (s # signal) \<and> (s # signal) ! Suc p = XNaN" by simp
      then show ?thesis by blast
    qed
  qed
qed

lemma toFloat32_not_infinite:
  assumes "toFloat32 (Fin v) \<noteq> PInf" "toFloat32 (Fin v) \<noteq> NInf"
  shows "\<bar>v\<bar> < f32Limit"
  using assms by (auto split: if_splits)

lemma bins_below_limit:
  assumes N: "real (length x) < 2 ^ 53" and xb: "\<forall>v\<in>set x. \<bar>v\<bar> \<le> 2 ^ 128"
    and P: "PInf \<notin> set (computeFFT_f32 (map Fin x))"
    and Q: "NInf \<notin> set (computeFFT_f32 (map Fin x))"
  shows "\<forall>k<length x. \<bar>dftRe x k\<bar> < f32Limit \<and> \<bar>dftIm x k\<bar> < f32Limit"
proof (intro allI impI)
  fix k assume k: "k < length x"
  have s: "fftSums_f32 (map Fin x) k = (Fin (dftRe x k), Fin (dftIm x k))"
    using k N xb by (rule fftSums_f32_Fin)
  have "set [toFloat32 (Fin (dftRe x k)), toFloat32 (Fin (dftIm x k))]
      \<subseteq> set (computeFFT_f32 (map Fin x))"
    using k s by (auto simp: computeFFT_f32_def Let_def intro!: bexI[of _ k])
  then have "toFloat32 (Fin (dftRe x k)) \<in> set (computeFFT_f32 (map Fin x))"
    "toFloat32 (Fin (dftIm x k)) \<in> set (computeFFT_f32 (map Fin x))"
    by simp_all
  then have "toFloat32 (Fin (dftRe x k)) \<noteq> PInf" "toFloat32 (Fin (dftRe x k)) \<noteq> NInf"
    "toFloat32 (Fin (dftIm x k)) \<noteq> PInf" "toFloat32 (Fin (dftIm x k)) \<noteq> NInf"
    using P Q by metis+
  then show "\<bar>dftRe x k\<bar> < f32Limit \<and> \<bar>dftIm x k\<bar> < f32Limit"
    by (intro conjI toFloat32_not_infinite)
qed

text \<open>
  Claim C10, amended. For every non-empty waveform of fewer than \<open>2^53\<close> samples, each
  a finite single-precision value or \<open>NaN\<close>, whose spectral transform holds no
  infinity (no bin sum reaches the threshold of the store), and for every positive
  finite single-precision sample rate, \<open>calculateSpectralCentroid\<close> returns a number
  \<open>c\<close> with \<open>0 \<le> c < sampleRate / 2\<close>.
\<close>

theorem spectral_centroid_range_without_overflow:
  assumes "signal \<noteq> []" "real (length signal) < 2 ^ 53"
    and "\<forall>s\<in>set signal. s = XNaN \<or> (\<exists>v. s = Fin v \<and> \<bar>v\<bar> < f32Limit)"
    and "PInf \<notin> set (computeFFT_f32 signal)" "NInf \<notin> set (computeFFT_f32 signal)"
    and "0 < sr" "sr < f32Limit"
  shows "\<exists>c. calculateSpectralCentroid_f32 signal (Fin sr) = Fin c \<and> 0 \<le> c \<and> c < sr / 2"
  using samples_Fin_or_XNaN[OF assms(3)]
proof
  assume "\<exists>x. signal = map Fin x \<and> (\<forall>v\<in>set x. \<bar>v\<bar> < f32Limit)"
  then obtain x where x: "signal = map Fin x" and xb: "\<forall>v\<in>set x. \<bar>v\<bar> < f32Limit" by blast
  have x0: "x \<noteq> []" using assms(1) x by auto
  have N: "real (length x) < 2 ^ 53" using assms(2) x by simp
  have xb': "\<forall>v\<in>set x. \<bar>v\<bar> \<le> 2 ^ 128" using xb limits(2) by fastforce
  have bins: "\<forall>k<length x. \<bar>dftRe x k\<bar> < f32Limit \<and> \<bar>dftIm x k\<bar> < f32Limit"
    using N xb' assms(4,5) unfolding x by (rule bins_below_limit)
  from centroid_f32_finite[OF x0 N xb bins assms(6,7)] show ?thesis unfolding x .
next
  assume "\<exists>p<length signal. signal ! p = XNaN"
  then obtain p where "p < length signal" "signal ! p = XNaN" by blast
  then have "calculateSpectralCentroid_f32 signal (Fin sr) = Fin 0"
    by (rule centroid_f32_XNaN_sample)
  then show ?thesis using assms(6) by simp
qed

lemma upt_0_2_Suc: "[0..<2] = [0, Suc 0]"
  by (simp add: numeral_2_eq_2)

lemma dft_pair:
  "dftRe [a, b] 0 = a + b" "dftIm [a, b] 0 = 0"
  "dftRe [a, b] (Suc 0) = a - b" "dftIm [a, b] (Suc 0) = 0"
  by (simp_all add: dftRe_def dftIm_def numeral_2_eq_2)

lemma fftSums_f32_pair:
  assumes "\<bar>a\<bar> \<le> 2 ^ 128" "\<bar>b\<bar> \<le> 2 ^ 128"
  shows "fftSums_f32 [Fin a, Fin b] 0 = (Fin (a + b), Fin 0)"
    and "fftSums_f32 [Fin a, Fin b] (Suc 0) = (Fin (a - b), Fin 0)"
proof -
  have h: "real (length [a, b]) < 2 ^ 53" "\<forall>v\<in>set [a, b]. \<bar>v\<bar> \<le> 2 ^ 128"
    using assms by simp_all
  have "fftSums_f32 (map Fin [a, b]) 0 = (Fin (dftRe [a, b] 0), Fin (dftIm [a, b] 0))"
    by (rule fftSums_f32_Fin[OF _ h]) simp
  then show "fftSums_f32 [Fin a, Fin b] 0 = (Fin (a + b), Fin 0)"
    by (simp only: dft_pair list.map)
  have "fftSums_f32 (map Fin [a, b]) (Suc 0) =
      (Fin (dftRe [a, b] (Suc 0)), Fin (dftIm [a, b] (Suc 0)))"
    by (rule fftSums_f32_Fin[OF _ h]) simp
  then show "fftSums_f32 [Fin a, Fin b] (Suc 0) = (Fin (a - b), Fin 0)"
    by (simp only: dft_pair list.map)
qed

lemma computeFFT_f32_pair:
  assumes "\<bar>a\<bar> \<le> 2 ^ 128" "\<bar>b\<bar> \<le> 2 ^ 128"
  shows "computeFFT_f32 [Fin a, Fin b] =
    [toFloat32 (Fin (a + b)), toFloat32 (Fin 0), toFloat32 (Fin (a - b)), toFloat32 (Fin 0)]"
proof -
  have l: "[0..<length [Fin a, Fin b]] = [0, Suc 0]" by (simp add: upt_0_2_Suc)
  show ?thesis
    unfolding computeFFT_f32_def Let_def l
    by (simp only: list.map concat.simps append.simps fftSums_f32_pair[OF assms]
        case_prod_conv)
qed

lemma toFloat32_0: "toFloat32 (Fin 0) = Fin 0"
  using limits(3) by simp

lemma toDouble_0: "toDouble 0 = Fin 0"
  by (rule toDouble_Fin) simp

lemma overflow_fft: "computeFFT_f32 overflowSignal = [PInf, Fin 0, Fin 0, Fin 0]"
proof -
  have "computeFFT_f32 [Fin (2 ^ 127), Fin (2 ^ 127)] =
    [toFloat32 (Fin (2 ^ 127 + 2 ^ 127)), toFloat32 (Fin 0),
     toFloat32 (Fin (2 ^ 127 - 2 ^ 127)), toFloat32 (Fin 0)]"
    by (rule computeFFT_f32_pair) simp_all
  moreover have "toFloat32 (Fin (2 ^ 127 + 2 ^ 127)) = PInf" by (simp add: f32Limit_def)
  moreover have "toFloat32 (Fin (2 ^ 127 - 2 ^ 127)) = Fin 0" using toFloat32_0 by simp
  ultimately show ?thesis by (simp only: overflowSignal_def toFloat32_0)
qed

lemma overflow_step_0:
  "centroidStep_f32 [PInf, Fin 0, Fin 0, Fin 0] (Fin 44100) 0 (Fin 0, Fin 0) = (XNaN, PInf)"
  by (simp add: centroidStep_f32_def Let_def xreadAt_def toDouble_0)

lemma overflow_step_1:
  "centroidStep_f32 [PInf, Fin 0, Fin 0, Fin 0] (Fin 44100) (Suc 0) (XNaN, PInf) = (XNaN, PInf)"
  by (simp add: centroidStep_f32_def Let_def xreadAt_def toDouble_0)

text \<open>
  Claim C10, as stated, fails: on the two finite samples \<open>2^127, 2^127\<close> the first bin
  sum \<open>2^128\<close> is stored as \<open>Infinity\<close>, its frequency \<open>0\<close> times its magnitude
  \<open>Infinity\<close> is \<open>NaN\<close>, the guard \<open>Infinity > 0\<close> passes, and the centroid returned is
  \<open>NaN\<close>, which lies in no interval.
\<close>

theorem spectral_centroid_overflow_nan:
  "calculateSpectralCentroid_f32 overflowSignal (Fin 44100) = XNaN"
proof -
  have l: "[0..<length [PInf, Fin 0, Fin 0, Fin 0] div 2] = [0, Suc 0]"
    by (simp add: upt_0_2_Suc)
  have "centroidSums_f32 [PInf, Fin 0, Fin 0, Fin 0] (Fin 44100) = (XNaN, PInf)"
    unfolding centroidSums_f32_def l
    by (simp only: fold_Cons fold_Nil o_apply id_apply overflow_step_0 overflow_step_1)
  then show ?thesis
    by (simp add: calculateSpectralCentroid_f32_def overflow_fft)
qed

lemma alternating_fft: "computeFFT_f32 alternatingSignal = [Fin 0, Fin 0, Fin 2, Fin 0]"
proof -
  have "computeFFT_f32 [Fin 1, Fin (- 1)] =
    [toFloat32 (Fin (1 + - 1)), toFloat32 (Fin 0),
     toFloat32 (Fin (1 - - 1)), toFloat32 (Fin 0)]"
    by (rule computeFFT_f32_pair) simp_all
  moreover have "toFloat32 (Fin (1 + - 1)) = Fin 0" using toFloat32_0 by simp
  moreover have "toFloat32 (Fin (1 - - 1)) = Fin 2" by (simp add: f32Limit_def)
  ultimately show ?thesis by (simp only: alternatingSignal_def toFloat32_0)
qed

lemma alternating_step_0:
  "centroidStep_f32 [Fin 0, Fin 0, Fin 2, Fin 0] (Fin 44100) 0 (Fin 0, Fin 0) = (Fin 0, Fin 0)"
  by (simp add: centroidStep_f32_def Let_def xreadAt_def toDouble_0)

lemma alternating_step_1:
  "centroidStep_f32 [Fin 0, Fin 0, Fin 2, Fin 0] (Fin 44100) (Suc 0) (Fin 0, Fin 0) =
   (Fin 22050, Fin 2)"
  by (simp add: centroidStep_f32_def Let_def xreadAt_def toDouble_0 toDouble_Fin)

lemma alternating_value:
  "calculateSpectralCentroid_f32 alternatingSignal (Fin 44100) = Fin 11025"
proof -
  have l: "[0..<length [Fin 0, Fin 0, Fin 2, Fin 0] div 2] = [0, Suc 0]"
    by (simp add: upt_0_2_Suc)
  have "centroidSums_f32 [Fin 0, Fin 0, Fin 2, Fin 0] (Fin 44100) = (Fin 22050, Fin 2)"
    unfolding centroidSums_f32_def l
    by (simp only: fold_Cons fold_Nil o_apply id_apply alternating_step_0 alternating_step_1)
  then show ?thesis
    by (simp add: calculateSpectralCentroid_f32_def alternating_fft toDouble_Fin)
qed

theorem spectral_centroid_range_without_overflow_witness:
  "alternatingSignal \<noteq> [] \<and> real (length alternatingSignal) < 2 ^ 53 \<and>
   PInf \<notin> set (computeFFT_f32 alternatingSignal) \<and>
   NInf \<notin> set (computeFFT_f32 alternatingSignal) \<and>
   (0::real) < 44100 \<and> 44100 < f32Limit \<and>
   calculateSpectralCentroid_f32 alternatingSignal (Fin 44100) = Fin 11025 \<and>
   (\<exists>c. calculateSpectralCentroid_f32 alternatingSignal (Fin 44100) = Fin c \<and>
        0 \<le> c \<and> c < 44100 / 2)"
proof -
  have s: "\<forall>s\<in>set alternatingSignal. s = XNaN \<or> (\<exists>v. s = Fin v \<and> \<bar>v\<bar> < f32Limit)"
    by (simp add: alternatingSignal_def f32Limit_def)
  have r: "(44100::real) < f32Limit" by (simp add: f32Limit_def)
  have i: "PInf \<notin> set (computeFFT_f32 alternatingSignal)"
    "NInf \<notin> set (computeFFT_f32 alternatingSignal)"
    by (simp_all add: alternating_fft)
  have n: "alternatingSignal \<noteq> []" "real (length alternatingSignal) < 2 ^ 53"
    by (simp_all add: alternatingSignal_def)
  have "\<exists>c. calculateSpectralCentroid_f32 alternatingSignal (Fin 44100) = Fin c \<and>
        0 \<le> c \<and> c < 44100 / 2"
    by (rule spectral_centroid_range_without_overflow[OF n s i _ r]) simp
  then show ?thesis using i r n alternating_value by simp
qed

end
